theory Spec2Isabelle
  imports Main "HOL-Library.Word" "HOL-Library.Monad_Syntax" "HOL-Library.Multiset"
begin

section \<open>The archetype ECS of \<^verbatim>\<open>ecs.c\<close>: data model\<close>

text \<open>
  The integer types of \<^verbatim>\<open>ecs.h\<close> are machine words: entity ids, chunk sizes and chunk counts
  are 32 bits wide, component ids, archetype ids and field sizes are 8 bits wide, so \<open>+\<close>, \<open>-\<close>
  and \<open>*\<close> wrap around exactly where the C arithmetic does. Values of type \<^verbatim>\<open>size_t\<close> are
  natural numbers.

  A heap array owned by a struct is a list held in the corresponding record field. Every read
  or write of the source goes through \<open>nth_opt\<close> or \<open>upd_opt\<close>: an access outside the array,
  a division by zero, a failed \<^verbatim>\<open>assert\<close> and a dereferenced null pointer are undefined
  behaviour in C and the value \<open>None\<close> here. Allocation failure ends the process in the source
  and is not modelled. The contents of a fresh allocation are unspecified in C; the model
  fills them with zeros.
\<close>

type_synonym id_t = "32 word"
type_synonym comp_id_t = "8 word"
type_synonym arch_id_t = "8 word"
type_synonym comp_size_t = "8 word"
type_synonym chunk_size_t = "32 word"
type_synonym chunks_length_t = "32 word"
type_synonym byte = "8 word"

record ComponentData =
  number_of_fields :: comp_size_t
  field_sizes :: "comp_size_t list"

text \<open>
  \<open>component_field_arrays\<close> is indexed by the global component id; \<open>None\<close> is the null
  pointer stored for a component outside the archetype, \<open>Some cols\<close> holds one byte array
  per field.
\<close>

record ArchetypeDataChunk =
  id_dense_array :: "id_t list"
  component_field_arrays :: "byte list list option list"
  dense_arrays_length :: chunk_size_t

record Archetype =
  components :: "comp_id_t list"
  chunks :: "ArchetypeDataChunk list"
  number_of_chunks :: chunks_length_t
  chunk_size :: chunk_size_t
  arch_number_of_components :: comp_id_t
  archetype_id :: arch_id_t

record SparseArrayChunk =
  sparse_archetypes :: "arch_id_t list"
  chunk_indexes :: "chunks_length_t list"
  dense_id_array_indexes :: "id_t list"

text \<open>
  The fields \<^verbatim>\<open>component_ids\<close> (reallocated but never written or read) and
  \<^verbatim>\<open>starting_sparse_array_chunks\<close> (never used after creation) of the C struct are left out.
\<close>

record World =
  archetypes :: "Archetype list"
  id_stack_ids :: "id_t list"
  id_stack_capacity :: id_t
  id_stack_top_index :: id_t
  all_components_data :: "ComponentData list"
  sparse_array_chunks :: "SparseArrayChunk list"
  sparse_array_chunk_size :: chunk_size_t
  sparse_array_number_of_chunks :: chunks_length_t
  dense_array_chunk_size :: chunk_size_t
  number_of_archetypes :: arch_id_t
  number_of_components :: comp_id_t

text \<open>
  A pointer into column storage names the array it points into by its place in the world
  (archetype, chunk, component, field) together with a byte offset from the array's base.
  \<open>FieldArraysPtr\<close> is the address of a chunk's per-field pointer table of one component.
\<close>

record field_ptr =
  ptr_archetype :: arch_id_t
  ptr_chunk :: chunks_length_t
  ptr_component :: comp_id_t
  ptr_field :: comp_size_t
  ptr_offset :: "32 word"

datatype field_arrays_ptr = FieldArraysPtr arch_id_t chunks_length_t comp_id_t

record ComponentIterator =
  it_component_field_arrays :: "field_arrays_ptr option list list"
  chunk_lengths :: "chunk_size_t list"
  it_number_of_chunks :: chunks_length_t

section \<open>Memory primitives\<close>

definition nth_opt :: "'a list \<Rightarrow> nat \<Rightarrow> 'a option" where
  "nth_opt xs i = (if i < length xs then Some (xs ! i) else None)"

definition upd_opt :: "'a list \<Rightarrow> nat \<Rightarrow> 'a \<Rightarrow> 'a list option" where
  "upd_opt xs i v = (if i < length xs then Some (xs[i := v]) else None)"

text \<open>\<^verbatim>\<open>realloc\<close> to \<open>n\<close> elements keeps the common prefix; new elements are unspecified.\<close>

definition realloc :: "'a list \<Rightarrow> nat \<Rightarrow> 'a \<Rightarrow> 'a list" where
  "realloc xs n junk = take n xs @ replicate (n - length xs) junk"

text \<open>
  \<^verbatim>\<open>memcpy(base + dst, base + src, n)\<close> inside one array. Overlapping ranges are undefined
  behaviour.
\<close>

definition memcpy_col :: "byte list \<Rightarrow> nat \<Rightarrow> nat \<Rightarrow> nat \<Rightarrow> byte list option" where
  "memcpy_col col dst src n =
     (if src + n \<le> length col \<and> dst + n \<le> length col \<and> (n = 0 \<or> dst + n \<le> src \<or> src + n \<le> dst)
      then Some (take dst col @ take n (drop src col) @ drop (dst + n) col)
      else None)"

definition junk_chunk :: ArchetypeDataChunk where
  "junk_chunk = \<lparr>id_dense_array = [], component_field_arrays = [], dense_arrays_length = 0\<rparr>"

definition junk_archetype :: Archetype where
  "junk_archetype = \<lparr>components = [], chunks = [], number_of_chunks = 0, chunk_size = 0,
     arch_number_of_components = 0, archetype_id = 0\<rparr>"

definition junk_component_data :: ComponentData where
  "junk_component_data = \<lparr>number_of_fields = 0, field_sizes = []\<rparr>"

definition junk_sparse_chunk :: SparseArrayChunk where
  "junk_sparse_chunk = \<lparr>sparse_archetypes = [], chunk_indexes = [], dense_id_array_indexes = []\<rparr>"

section \<open>ComponentData, ArchetypeDataChunk, Archetype, SparseArrayChunk\<close>

definition component_data_init :: "comp_size_t list \<Rightarrow> comp_size_t \<Rightarrow> ComponentData option" where
  "component_data_init fs n =
     (if unat n \<le> length fs
      then Some \<lparr>number_of_fields = n, field_sizes = take (unat n) fs\<rparr>
      else None)"

text \<open>The loop over the archetype's components in \<^verbatim>\<open>archetype_data_chunk_init\<close>.\<close>

fun init_component_columns ::
  "ComponentData list \<Rightarrow> nat \<Rightarrow> comp_id_t list \<Rightarrow> byte list list option list
     \<Rightarrow> byte list list option list option" where
  "init_component_columns acd csz [] cfa = Some cfa"
| "init_component_columns acd csz (cid # cids) cfa = do {
     cd \<leftarrow> nth_opt acd (unat cid);
     fss \<leftarrow> (if unat (number_of_fields cd) \<le> length (field_sizes cd)
            then Some (take (unat (number_of_fields cd)) (field_sizes cd)) else None);
     cfa' \<leftarrow> upd_opt cfa (unat cid) (Some (map (\<lambda>fs. replicate (unat fs * csz) 0) fss));
     init_component_columns acd csz cids cfa'
   }"

definition archetype_data_chunk_init ::
  "ComponentData list \<Rightarrow> comp_id_t \<Rightarrow> comp_id_t \<Rightarrow> comp_id_t list \<Rightarrow> nat
     \<Rightarrow> ArchetypeDataChunk option" where
  "archetype_data_chunk_init acd nall narch cids csz = do {
     cs \<leftarrow> (if unat narch \<le> length cids then Some (take (unat narch) cids) else None);
     cfa \<leftarrow> init_component_columns acd csz cs (replicate (unat nall) None);
     Some \<lparr>id_dense_array = replicate csz 0, component_field_arrays = cfa,
           dense_arrays_length = 0\<rparr>
   }"

definition archetype_init ::
  "arch_id_t \<Rightarrow> comp_id_t \<Rightarrow> ComponentData list \<Rightarrow> comp_id_t \<Rightarrow> comp_id_t list \<Rightarrow> nat \<Rightarrow> nat
     \<Rightarrow> Archetype option" where
  "archetype_init aid nall acd narch cids csz nchunks = do {
     chs \<leftarrow> (if nchunks = 0 then Some []
            else map_option (replicate nchunks) (archetype_data_chunk_init acd nall narch cids csz));
     cs \<leftarrow> (if unat narch \<le> length cids then Some (take (unat narch) cids) else None);
     Some \<lparr>components = cs, chunks = chs, number_of_chunks = of_nat nchunks,
           chunk_size = of_nat csz, arch_number_of_components = narch, archetype_id = aid\<rparr>
   }"

text \<open>
  The scan of \<^verbatim>\<open>archetype_add_entity\<close> for the first chunk with room: \<open>Some (Some i)\<close> when
  chunk \<open>i\<close> has room, \<open>Some None\<close> when the loop ends without one.
\<close>

fun find_chunk_with_space ::
  "ArchetypeDataChunk list \<Rightarrow> chunk_size_t \<Rightarrow> nat list \<Rightarrow> nat option option" where
  "find_chunk_with_space chs sz [] = Some None"
| "find_chunk_with_space chs sz (i # is) = do {
     ch \<leftarrow> nth_opt chs i;
     if dense_arrays_length ch < sz then Some (Some i)
     else find_chunk_with_space chs sz is
   }"

text \<open>Returns the archetype with the out-parameters \<^verbatim>\<open>id_dense_array_index\<close>, \<^verbatim>\<open>chunk_index\<close>.\<close>

definition archetype_add_entity ::
  "Archetype \<Rightarrow> id_t \<Rightarrow> comp_id_t \<Rightarrow> ComponentData list
     \<Rightarrow> (Archetype \<times> id_t \<times> chunk_size_t) option" where
  "archetype_add_entity a e nall acd = do {
     found \<leftarrow> find_chunk_with_space (chunks a) (chunk_size a) [0..<unat (number_of_chunks a)];
     case found of
       Some i \<Rightarrow> do {
         ch \<leftarrow> nth_opt (chunks a) i;
         ids \<leftarrow> upd_opt (id_dense_array ch) (unat (dense_arrays_length ch)) e;
         Some (a\<lparr>chunks := (chunks a)[i := ch\<lparr>id_dense_array := ids,
                    dense_arrays_length := dense_arrays_length ch + 1\<rparr>]\<rparr>,
               dense_arrays_length ch, of_nat i)
       }
     | None \<Rightarrow> do {
         new \<leftarrow> archetype_data_chunk_init acd nall (arch_number_of_components a) (components a)
                  (unat (chunk_size a));
         chs \<leftarrow> upd_opt (realloc (chunks a) (unat (number_of_chunks a + 1)) junk_chunk)
                  (unat (number_of_chunks a + 1 - 1)) new;
         ids \<leftarrow> upd_opt (id_dense_array new) 0 e;
         Some (a\<lparr>chunks := chs[unat (number_of_chunks a + 1 - 1) :=
                      new\<lparr>id_dense_array := ids,
                          dense_arrays_length := dense_arrays_length new + 1\<rparr>],
                  number_of_chunks := number_of_chunks a + 1\<rparr>,
               0, number_of_chunks a + 1 - 1)
       }
   }"

definition sparse_array_chunk_init :: "chunk_size_t \<Rightarrow> SparseArrayChunk" where
  "sparse_array_chunk_init sz =
     \<lparr>sparse_archetypes = replicate (unat sz) 0, chunk_indexes = replicate (unat sz) 0,
      dense_id_array_indexes = replicate (unat sz) 0\<rparr>"

section \<open>World\<close>

definition world_create :: "chunk_size_t \<Rightarrow> chunk_size_t \<Rightarrow> chunks_length_t \<Rightarrow> World" where
  "world_create dense_chunk_size sparse_chunk_size starting_chunks =
     \<lparr>archetypes = [],
      id_stack_ids = map of_nat [0..<unat sparse_chunk_size],
      id_stack_capacity = sparse_chunk_size,
      id_stack_top_index = 0,
      all_components_data = [],
      sparse_array_chunks =
        replicate (unat starting_chunks) (sparse_array_chunk_init sparse_chunk_size),
      sparse_array_chunk_size = sparse_chunk_size,
      sparse_array_number_of_chunks = starting_chunks,
      dense_array_chunk_size = dense_chunk_size,
      number_of_archetypes = 0,
      number_of_components = 0\<rparr>"

text \<open>The inner loop of \<^verbatim>\<open>world_match_archetype\<close>, leaving at the first difference.\<close>

fun components_equal :: "comp_id_t list \<Rightarrow> comp_id_t list \<Rightarrow> nat list \<Rightarrow> bool option" where
  "components_equal xs ys [] = Some True"
| "components_equal xs ys (c # cs) = do {
     x \<leftarrow> nth_opt xs c;
     y \<leftarrow> nth_opt ys c;
     if x \<noteq> y then Some False else components_equal xs ys cs
   }"

fun match_archetype_scan ::
  "Archetype list \<Rightarrow> comp_id_t \<Rightarrow> comp_id_t list \<Rightarrow> nat list \<Rightarrow> arch_id_t option option" where
  "match_archetype_scan archs n cs [] = Some None"
| "match_archetype_scan archs n cs (a # as) = do {
     arch \<leftarrow> nth_opt archs a;
     if arch_number_of_components arch = n then do {
       matched \<leftarrow> components_equal (components arch) cs [0..<unat n];
       if matched then Some (Some (of_nat a)) else match_archetype_scan archs n cs as
     } else match_archetype_scan archs n cs as
   }"

text \<open>\<open>Some (Some a)\<close>: returns true with \<^verbatim>\<open>*matched_arch_id = a\<close>; \<open>Some None\<close>: returns false.\<close>

definition world_match_archetype ::
  "World \<Rightarrow> comp_id_t \<Rightarrow> comp_id_t list \<Rightarrow> arch_id_t option option" where
  "world_match_archetype w n cs =
     match_archetype_scan (archetypes w) n cs [0..<unat (number_of_archetypes w)]"

definition world_add_archetype ::
  "World \<Rightarrow> comp_id_t \<Rightarrow> comp_id_t list \<Rightarrow> (World \<times> arch_id_t) option" where
  "world_add_archetype w n cs = do {
     arch \<leftarrow> archetype_init (number_of_archetypes w) (number_of_components w)
               (all_components_data w) n cs (unat (dense_array_chunk_size w)) 1;
     Some (w\<lparr>archetypes :=
               (realloc (archetypes w) (unat (number_of_archetypes w) + 1) junk_archetype)
                 [unat (number_of_archetypes w) := arch],
             number_of_archetypes := number_of_archetypes w + 1\<rparr>,
           number_of_archetypes w)
   }"

definition world_add_component_type ::
  "World \<Rightarrow> comp_size_t list \<Rightarrow> comp_size_t \<Rightarrow> (World \<times> comp_id_t) option" where
  "world_add_component_type w fs n = do {
     cd \<leftarrow> component_data_init fs n;
     Some (w\<lparr>all_components_data :=
               (realloc (all_components_data w) (unat (number_of_components w) + 1)
                  junk_component_data)[unat (number_of_components w) := cd],
             number_of_components := number_of_components w + 1\<rparr>,
           number_of_components w)
   }"

text \<open>
  \<^verbatim>\<open>world_add_entity\<close>, first part (lines 306 to 316): pop an id from the stack, doubling
  the capacity and seeding positions \<open>top ..< capacity\<close> with their own index when the stack
  is exhausted.
\<close>

definition id_stack_pop :: "World \<Rightarrow> (World \<times> id_t) option" where
  "id_stack_pop w = do {
     let w1 = (if id_stack_top_index w \<ge> id_stack_capacity w then
                 w\<lparr>id_stack_capacity := id_stack_capacity w * 2,
                   id_stack_ids :=
                     take (unat (id_stack_top_index w))
                       (realloc (id_stack_ids w) (unat (id_stack_capacity w * 2)) 0)
                     @ map of_nat [unat (id_stack_top_index w)..<unat (id_stack_capacity w * 2)]\<rparr>
               else w);
     id \<leftarrow> nth_opt (id_stack_ids w1) (unat (id_stack_top_index w1));
     Some (w1\<lparr>id_stack_top_index := id_stack_top_index w1 + 1\<rparr>, id)
   }"

text \<open>
  Second part (lines 318 to 351): sort a copy of the signature, find or create the archetype
  and append the entity to it. The result carries \<^verbatim>\<open>matched_arch_id\<close>,
  \<^verbatim>\<open>id_dense_array_index\<close> and \<^verbatim>\<open>chunk_index\<close>.
\<close>

definition place_entity ::
  "World \<Rightarrow> id_t \<Rightarrow> comp_id_t \<Rightarrow> comp_id_t list
     \<Rightarrow> (World \<times> arch_id_t \<times> id_t \<times> chunks_length_t) option" where
  "place_entity w e n cs = do {
     sorted_components \<leftarrow> (if unat n \<le> length cs then Some (sort (take (unat n) cs)) else None);
     m \<leftarrow> world_match_archetype w n sorted_components;
     (w1, aid) \<leftarrow> (case m of Some a \<Rightarrow> Some (w, a)
                   | None \<Rightarrow> world_add_archetype w n sorted_components);
     arch \<leftarrow> nth_opt (archetypes w1) (unat aid);
     (arch', row, ci) \<leftarrow> archetype_add_entity arch e (number_of_components w1)
                           (all_components_data w1);
     Some (w1\<lparr>archetypes := (archetypes w1)[unat aid := arch']\<rparr>, aid, row, ci)
   }"

text \<open>
  Third part (lines 353 to 375): grow the vector of sparse sub-arrays by one when the id's
  sub-array index lies outside it, then write the triple.
\<close>

definition sparse_index_set ::
  "World \<Rightarrow> id_t \<Rightarrow> arch_id_t \<Rightarrow> chunks_length_t \<Rightarrow> id_t \<Rightarrow> World option" where
  "sparse_index_set w e aid ci row = do {
     _ \<leftarrow> (if sparse_array_chunk_size w = 0 then None else Some ());
     let sci = e div sparse_array_chunk_size w;
     let w1 = (if sci \<ge> sparse_array_number_of_chunks w then
                 w\<lparr>sparse_array_chunks :=
                     take (unat (sparse_array_number_of_chunks w))
                       (realloc (sparse_array_chunks w)
                          (unat (sparse_array_number_of_chunks w + 1)) junk_sparse_chunk)
                     @ replicate (unat (sparse_array_number_of_chunks w + 1)
                                   - unat (sparse_array_number_of_chunks w))
                         (sparse_array_chunk_init (sparse_array_chunk_size w)),
                   sparse_array_number_of_chunks := sparse_array_number_of_chunks w + 1\<rparr>
               else w);
     let local = unat (e mod sparse_array_chunk_size w);
     sc \<leftarrow> nth_opt (sparse_array_chunks w1) (unat sci);
     as \<leftarrow> upd_opt (sparse_archetypes sc) local aid;
     cis \<leftarrow> upd_opt (chunk_indexes sc) local ci;
     rows \<leftarrow> upd_opt (dense_id_array_indexes sc) local row;
     Some (w1\<lparr>sparse_array_chunks := (sparse_array_chunks w1)[unat sci :=
                 sc\<lparr>sparse_archetypes := as, chunk_indexes := cis,
                    dense_id_array_indexes := rows\<rparr>]\<rparr>)
   }"

definition world_add_entity :: "World \<Rightarrow> comp_id_t \<Rightarrow> comp_id_t list \<Rightarrow> (World \<times> id_t) option" where
  "world_add_entity w n cs = do {
     (w1, e) \<leftarrow> id_stack_pop w;
     (w2, aid, row, ci) \<leftarrow> place_entity w1 e n cs;
     w3 \<leftarrow> sparse_index_set w2 e aid ci row;
     Some (w3, e)
   }"

text \<open>The linear scan for one component id, leaving at the first hit.\<close>

fun has_component_scan :: "comp_id_t list \<Rightarrow> comp_id_t \<Rightarrow> nat list \<Rightarrow> bool option" where
  "has_component_scan comps c [] = Some False"
| "has_component_scan comps c (i # is) = do {
     x \<leftarrow> nth_opt comps i;
     if x = c then Some True else has_component_scan comps c is
   }"

fun have_components_scan :: "Archetype \<Rightarrow> comp_id_t list \<Rightarrow> nat list \<Rightarrow> bool option" where
  "have_components_scan a cids [] = Some True"
| "have_components_scan a cids (c # cs) = do {
     x \<leftarrow> nth_opt cids c;
     found_match \<leftarrow> has_component_scan (components a) x
                      [0..<unat (arch_number_of_components a)];
     if \<not> found_match then Some False else have_components_scan a cids cs
   }"

definition does_archetype_have_components ::
  "Archetype \<Rightarrow> comp_id_t list \<Rightarrow> comp_id_t \<Rightarrow> bool option" where
  "does_archetype_have_components a comp_ids number_of_comps =
     (if arch_number_of_components a < number_of_comps then Some False
      else have_components_scan a comp_ids [0..<unat number_of_comps])"

text \<open>
  The sparse index entry of an id: sub-array \<open>e div size\<close>, slot \<open>e mod size\<close>, as the triple
  (archetype id, chunk index, row).
\<close>

definition sparse_index_get :: "World \<Rightarrow> id_t \<Rightarrow> (arch_id_t \<times> chunks_length_t \<times> id_t) option" where
  "sparse_index_get w e = do {
     _ \<leftarrow> (if sparse_array_chunk_size w = 0 then None else Some ());
     sc \<leftarrow> nth_opt (sparse_array_chunks w) (unat (e div sparse_array_chunk_size w));
     a \<leftarrow> nth_opt (sparse_archetypes sc) (unat (e mod sparse_array_chunk_size w));
     c \<leftarrow> nth_opt (chunk_indexes sc) (unat (e mod sparse_array_chunk_size w));
     r \<leftarrow> nth_opt (dense_id_array_indexes sc) (unat (e mod sparse_array_chunk_size w));
     Some (a, c, r)
   }"

text \<open>The two nested loops of \<^verbatim>\<open>world_remove_entity\<close> that move the last row's field data.\<close>

fun copy_fields ::
  "byte list list option list \<Rightarrow> nat \<Rightarrow> comp_size_t list \<Rightarrow> id_t \<Rightarrow> id_t \<Rightarrow> nat list
     \<Rightarrow> byte list list option list option" where
  "copy_fields cfa cid fss dst src [] = Some cfa"
| "copy_fields cfa cid fss dst src (f # fs) = do {
     field_size \<leftarrow> nth_opt fss f;
     entry \<leftarrow> nth_opt cfa cid;
     cols \<leftarrow> entry;
     col \<leftarrow> nth_opt cols f;
     col' \<leftarrow> memcpy_col col (unat (dst * ucast field_size)) (unat (src * ucast field_size))
               (unat field_size);
     copy_fields (cfa[cid := Some (cols[f := col'])]) cid fss dst src fs
   }"

fun copy_components ::
  "ComponentData list \<Rightarrow> comp_id_t list \<Rightarrow> byte list list option list \<Rightarrow> id_t \<Rightarrow> id_t
     \<Rightarrow> nat list \<Rightarrow> byte list list option list option" where
  "copy_components acd comps cfa dst src [] = Some cfa"
| "copy_components acd comps cfa dst src (c # cs) = do {
     component_index \<leftarrow> nth_opt comps c;
     component_data \<leftarrow> nth_opt acd (unat component_index);
     cfa' \<leftarrow> copy_fields cfa (unat component_index) (field_sizes component_data) dst src
               [0..<unat (number_of_fields component_data)];
     copy_components acd comps cfa' dst src cs
   }"

definition set_chunk :: "World \<Rightarrow> arch_id_t \<Rightarrow> chunks_length_t \<Rightarrow> ArchetypeDataChunk \<Rightarrow> World" where
  "set_chunk w aid ci ch =
     w\<lparr>archetypes := (archetypes w)[unat aid :=
         (archetypes w ! unat aid)\<lparr>chunks := (chunks (archetypes w ! unat aid))[unat ci := ch]\<rparr>]\<rparr>"

text \<open>
  \<^verbatim>\<open>world_remove_entity\<close>, first part (line 401): push the id back on the stack.
\<close>

definition id_stack_push :: "World \<Rightarrow> id_t \<Rightarrow> World option" where
  "id_stack_push w entity_id = do {
     ids \<leftarrow> upd_opt (id_stack_ids w) (unat (id_stack_top_index w - 1)) entity_id;
     Some (w\<lparr>id_stack_ids := ids, id_stack_top_index := id_stack_top_index w - 1\<rparr>)
   }"

text \<open>
  Second part (lines 417 to 443 and 451): the swap-pop inside the entity's chunk. The result
  is the chunk afterwards and, when a row was moved, the id of the moved entity.
\<close>

definition swap_pop ::
  "ComponentData list \<Rightarrow> Archetype \<Rightarrow> ArchetypeDataChunk \<Rightarrow> id_t
     \<Rightarrow> (ArchetypeDataChunk \<times> id_t option) option" where
  "swap_pop acd archetype ch dense_id_array_index =
     (if dense_id_array_index = dense_arrays_length ch - 1 then
        Some (ch\<lparr>dense_arrays_length := dense_arrays_length ch - 1\<rparr>, None)
      else do {
        last_entity_id \<leftarrow> nth_opt (id_dense_array ch) (unat (dense_arrays_length ch - 1));
        ida \<leftarrow> upd_opt (id_dense_array ch) (unat dense_id_array_index) last_entity_id;
        cfa \<leftarrow> copy_components acd (components archetype) (component_field_arrays ch)
                 dense_id_array_index (dense_arrays_length ch - 1)
                 [0..<unat (arch_number_of_components archetype)];
        Some (ch\<lparr>id_dense_array := ida, component_field_arrays := cfa,
                 dense_arrays_length := dense_arrays_length ch - 1\<rparr>, Some last_entity_id)
      })"

text \<open>Third part (lines 447 to 449): the moved entity's sparse entry gets the new row.\<close>

definition sparse_index_set_row :: "World \<Rightarrow> id_t \<Rightarrow> id_t \<Rightarrow> World option" where
  "sparse_index_set_row w last_entity_id row = do {
     sc \<leftarrow> nth_opt (sparse_array_chunks w)
             (unat (last_entity_id div sparse_array_chunk_size w));
     rows \<leftarrow> upd_opt (dense_id_array_indexes sc)
               (unat (last_entity_id mod sparse_array_chunk_size w)) row;
     Some (w\<lparr>sparse_array_chunks := (sparse_array_chunks w)
               [unat (last_entity_id div sparse_array_chunk_size w) :=
                  sc\<lparr>dense_id_array_indexes := rows\<rparr>]\<rparr>)
   }"

definition world_remove_entity :: "World \<Rightarrow> id_t \<Rightarrow> World option" where
  "world_remove_entity w entity_id = do {
     w1 \<leftarrow> id_stack_push w entity_id;
     (archetype_id, chunk_index, dense_id_array_index) \<leftarrow> sparse_index_get w1 entity_id;
     archetype \<leftarrow> nth_opt (archetypes w1) (unat archetype_id);
     archetype_data_chunk \<leftarrow> nth_opt (chunks archetype) (unat chunk_index);
     (ch', moved) \<leftarrow> swap_pop (all_components_data w1) archetype archetype_data_chunk
                       dense_id_array_index;
     w2 \<leftarrow> (case moved of None \<Rightarrow> Some w1
            | Some last_entity_id \<Rightarrow> sparse_index_set_row w1 last_entity_id dense_id_array_index);
     Some (set_chunk w2 archetype_id chunk_index ch')
   }"

text \<open>
  \<open>Some None\<close> is the null pointer. An id beyond the allocated sparse range is answered with
  null before the sparse arrays are read.
\<close>

definition world_get_component_field ::
  "World \<Rightarrow> id_t \<Rightarrow> comp_id_t \<Rightarrow> comp_size_t \<Rightarrow> field_ptr option option" where
  "world_get_component_field w entity_id component_id field_index = do {
     _ \<leftarrow> (if sparse_array_chunk_size w = 0 then None else Some ());
     if entity_id div sparse_array_chunk_size w \<ge> sparse_array_number_of_chunks w then Some None
     else do {
       (archetype_id, chunk_index, dense_id_array_index) \<leftarrow> sparse_index_get w entity_id;
       archetype \<leftarrow> nth_opt (archetypes w) (unat archetype_id);
       has_component \<leftarrow> has_component_scan (components archetype) component_id
                          [0..<unat (arch_number_of_components archetype)];
       if \<not> has_component then Some None
       else do {
         component_data \<leftarrow> nth_opt (all_components_data w) (unat component_id);
         if field_index \<ge> number_of_fields component_data then Some None
         else do {
           archetype_data_chunk \<leftarrow> nth_opt (chunks archetype) (unat chunk_index);
           field_size \<leftarrow> nth_opt (field_sizes component_data) (unat field_index);
           entry \<leftarrow> nth_opt (component_field_arrays archetype_data_chunk) (unat component_id);
           cols \<leftarrow> entry;
           _ \<leftarrow> nth_opt cols (unat field_index);
           Some (Some \<lparr>ptr_archetype = archetype_id, ptr_chunk = chunk_index,
                       ptr_component = component_id, ptr_field = field_index,
                       ptr_offset = dense_id_array_index * ucast field_size\<rparr>)
         }
       }
     }
   }"

section \<open>ComponentIterator\<close>

text \<open>First pass of \<^verbatim>\<open>world_get_component_iterator\<close>: the 32-bit total of matching chunks.\<close>

fun count_chunks_scan ::
  "Archetype list \<Rightarrow> comp_id_t list \<Rightarrow> comp_id_t \<Rightarrow> nat list \<Rightarrow> chunks_length_t
     \<Rightarrow> chunks_length_t option" where
  "count_chunks_scan archs cids n [] total_chunks = Some total_chunks"
| "count_chunks_scan archs cids n (a # as) total_chunks = do {
     arch \<leftarrow> nth_opt archs a;
     m \<leftarrow> does_archetype_have_components arch cids n;
     count_chunks_scan archs cids n as
       (if m then total_chunks + number_of_chunks arch else total_chunks)
   }"

text \<open>The record of one chunk: for each requested component, the chunk's pointer table.\<close>

fun chunk_record ::
  "ArchetypeDataChunk \<Rightarrow> arch_id_t \<Rightarrow> chunks_length_t \<Rightarrow> comp_id_t list \<Rightarrow> nat list
     \<Rightarrow> field_arrays_ptr option list option" where
  "chunk_record ch a ci cids [] = Some []"
| "chunk_record ch a ci cids (co # cos) = do {
     cid \<leftarrow> nth_opt cids co;
     entry \<leftarrow> nth_opt (component_field_arrays ch) (unat cid);
     rest \<leftarrow> chunk_record ch a ci cids cos;
     Some (map_option (\<lambda>_. FieldArraysPtr a ci cid) entry # rest)
   }"

text \<open>Second pass, inner loop over the chunks of one matching archetype.\<close>

fun fill_chunks ::
  "Archetype \<Rightarrow> arch_id_t \<Rightarrow> comp_id_t list \<Rightarrow> comp_id_t \<Rightarrow> nat list \<Rightarrow> ComponentIterator
     \<Rightarrow> chunks_length_t \<Rightarrow> (ComponentIterator \<times> chunks_length_t) option" where
  "fill_chunks arch a cids n [] it current_chunk_index = Some (it, current_chunk_index)"
| "fill_chunks arch a cids n (c # cs) it current_chunk_index = do {
     ch \<leftarrow> nth_opt (chunks arch) c;
     entry \<leftarrow> chunk_record ch a (of_nat c) cids [0..<unat n];
     cfa \<leftarrow> upd_opt (it_component_field_arrays it) (unat current_chunk_index) entry;
     lens \<leftarrow> upd_opt (chunk_lengths it) (unat current_chunk_index) (dense_arrays_length ch);
     fill_chunks arch a cids n cs
       (it\<lparr>it_component_field_arrays := cfa, chunk_lengths := lens\<rparr>) (current_chunk_index + 1)
   }"

fun fill_archetypes ::
  "Archetype list \<Rightarrow> comp_id_t list \<Rightarrow> comp_id_t \<Rightarrow> nat list \<Rightarrow> ComponentIterator
     \<Rightarrow> chunks_length_t \<Rightarrow> ComponentIterator option" where
  "fill_archetypes archs cids n [] it current_chunk_index = Some it"
| "fill_archetypes archs cids n (a # as) it current_chunk_index = do {
     arch \<leftarrow> nth_opt archs a;
     m \<leftarrow> does_archetype_have_components arch cids n;
     if m then do {
       (it', current') \<leftarrow> fill_chunks arch (of_nat a) cids n [0..<unat (number_of_chunks arch)]
                            it current_chunk_index;
       fill_archetypes archs cids n as it' current'
     } else fill_archetypes archs cids n as it current_chunk_index
   }"

definition world_get_component_iterator ::
  "World \<Rightarrow> comp_id_t list \<Rightarrow> comp_id_t \<Rightarrow> ComponentIterator option" where
  "world_get_component_iterator w component_ids n = do {
     total_chunks \<leftarrow> count_chunks_scan (archetypes w) component_ids n
                       [0..<unat (number_of_archetypes w)] 0;
     if total_chunks = 0 then
       Some \<lparr>it_component_field_arrays = [], chunk_lengths = [], it_number_of_chunks = 0\<rparr>
     else
       fill_archetypes (archetypes w) component_ids n [0..<unat (number_of_archetypes w)]
         \<lparr>it_component_field_arrays = replicate (unat total_chunks) [],
          chunk_lengths = replicate (unat total_chunks) 0,
          it_number_of_chunks = total_chunks\<rparr> 0
   }"

section \<open>Sequences of operations\<close>

text \<open>
  A run threads the world through a list of API calls, together with the set of live entity
  ids: the ids handed out by \<^verbatim>\<open>world_add_entity\<close> and not yet given back. Removing an id
  that is not live is illegal and ends the run, as does any call that runs into undefined
  behaviour.
\<close>

datatype operation =
  AddComponentType "comp_size_t list" comp_size_t
| AddEntity comp_id_t "comp_id_t list"
| RemoveEntity id_t

fun step :: "operation \<Rightarrow> World \<times> id_t set \<Rightarrow> (World \<times> id_t set) option" where
  "step (AddComponentType fs n) (w, live) =
     map_option (\<lambda>(w', c). (w', live)) (world_add_component_type w fs n)"
| "step (AddEntity n cs) (w, live) =
     map_option (\<lambda>(w', e). (w', insert e live)) (world_add_entity w n cs)"
| "step (RemoveEntity e) (w, live) =
     (if e \<in> live then map_option (\<lambda>w'. (w', live - {e})) (world_remove_entity w e) else None)"

fun run :: "operation list \<Rightarrow> World \<times> id_t set \<Rightarrow> (World \<times> id_t set) option" where
  "run [] s = Some s"
| "run (op # ops) s = step op s \<bind> run ops"

text \<open>Registering a list of component types in turn, collecting the ids handed out.\<close>

fun register_all ::
  "World \<Rightarrow> (comp_size_t list \<times> comp_size_t) list \<Rightarrow> (World \<times> comp_id_t list) option" where
  "register_all w [] = Some (w, [])"
| "register_all w ((fs, n) # rest) = do {
     (w1, c) \<leftarrow> world_add_component_type w fs n;
     (w2, cs) \<leftarrow> register_all w1 rest;
     Some (w2, c # cs)
   }"

text \<open>
  A run in which neither 8-bit counter wraps: after every call the counters still equal the
  number of archetypes and of registered component types.
\<close>

definition counters_exact :: "World \<Rightarrow> bool" where
  "counters_exact w \<longleftrightarrow>
     length (archetypes w) = unat (number_of_archetypes w) \<and>
     length (all_components_data w) = unat (number_of_components w)"

fun run_exact :: "operation list \<Rightarrow> World \<times> id_t set \<Rightarrow> (World \<times> id_t set) option" where
  "run_exact [] s = Some s"
| "run_exact (op # ops) s = do {
     s' \<leftarrow> step op s;
     if counters_exact (fst s') then run_exact ops s' else None
   }"

text \<open>Removing a list of entities in turn; adding a list of entities, collecting their ids.\<close>

fun remove_all :: "World \<Rightarrow> id_t list \<Rightarrow> World option" where
  "remove_all w [] = Some w"
| "remove_all w (e # es) = world_remove_entity w e \<bind> (\<lambda>w'. remove_all w' es)"

fun add_all :: "World \<Rightarrow> (comp_id_t \<times> comp_id_t list) list \<Rightarrow> (World \<times> id_t list) option" where
  "add_all w [] = Some (w, [])"
| "add_all w ((n, cs) # rest) = do {
     (w1, e) \<leftarrow> world_add_entity w n cs;
     (w2, es) \<leftarrow> add_all w1 rest;
     Some (w2, e # es)
   }"

section \<open>Invariants\<close>

text \<open>
  The id allocator and the sparse index. \<open>H\<close> is the high-water mark: the ids below \<open>H\<close> are
  exactly the live ids and the recycled ids waiting on the stack in positions \<open>top ..< H\<close>;
  the positions from \<open>H\<close> on still hold their own index; the sparse sub-arrays cover all ids
  below \<open>H\<close>.
\<close>

definition sparse_capacity :: "World \<Rightarrow> nat" where
  "sparse_capacity w =
     unat (sparse_array_number_of_chunks w) * unat (sparse_array_chunk_size w)"

definition sparse_chunk_ok :: "chunk_size_t \<Rightarrow> SparseArrayChunk \<Rightarrow> bool" where
  "sparse_chunk_ok sz sc \<longleftrightarrow>
     length (sparse_archetypes sc) = unat sz \<and> length (chunk_indexes sc) = unat sz \<and>
     length (dense_id_array_indexes sc) = unat sz"

definition free_ids :: "World \<Rightarrow> nat \<Rightarrow> id_t list" where
  "free_ids w H =
     take (H - unat (id_stack_top_index w)) (drop (unat (id_stack_top_index w)) (id_stack_ids w))"

definition stack_inv :: "World \<Rightarrow> id_t set \<Rightarrow> nat \<Rightarrow> bool" where
  "stack_inv w live H \<longleftrightarrow>
     length (id_stack_ids w) = unat (id_stack_capacity w) \<and>
     unat (id_stack_top_index w) \<le> H \<and> H \<le> unat (id_stack_capacity w) \<and>
     (\<forall>i. H \<le> i \<and> i < unat (id_stack_capacity w) \<longrightarrow> id_stack_ids w ! i = of_nat i) \<and>
     distinct (free_ids w H) \<and> live \<inter> set (free_ids w H) = {} \<and>
     live \<union> set (free_ids w H) = {e. unat e < H}"

definition sparse_inv :: "World \<Rightarrow> nat \<Rightarrow> bool" where
  "sparse_inv w H \<longleftrightarrow>
     H \<le> sparse_capacity w \<and>
     (sparse_array_chunk_size w = 0 \<longrightarrow> id_stack_capacity w = 0) \<and>
     length (sparse_array_chunks w) = unat (sparse_array_number_of_chunks w) \<and>
     (\<forall>sc \<in> set (sparse_array_chunks w). sparse_chunk_ok (sparse_array_chunk_size w) sc)"

definition alloc_inv :: "World \<Rightarrow> id_t set \<Rightarrow> bool" where
  "alloc_inv w live \<longleftrightarrow> (\<exists>H. stack_inv w live H \<and> sparse_inv w H)"

text \<open>The registry and the shape of archetypes, chunks and columns.\<close>

definition registry_ok :: "World \<Rightarrow> bool" where
  "registry_ok w \<longleftrightarrow>
     (\<forall>cd \<in> set (all_components_data w). length (field_sizes cd) = unat (number_of_fields cd))"

definition columns_ok ::
  "ComponentData list \<Rightarrow> chunk_size_t \<Rightarrow> comp_id_t list \<Rightarrow> byte list list option list \<Rightarrow> bool" where
  "columns_ok acd csz comps cfa \<longleftrightarrow>
     (\<forall>c \<in> set comps. unat c < length acd \<and> unat c < length cfa \<and>
        (\<exists>cols. cfa ! unat c = Some cols \<and>
           map length cols = map (\<lambda>fs. unat fs * unat csz) (field_sizes (acd ! unat c))))"

definition chunk_ok ::
  "ComponentData list \<Rightarrow> chunk_size_t \<Rightarrow> comp_id_t list \<Rightarrow> ArchetypeDataChunk \<Rightarrow> bool" where
  "chunk_ok acd csz comps ch \<longleftrightarrow>
     length (id_dense_array ch) = unat csz \<and> dense_arrays_length ch \<le> csz \<and>
     columns_ok acd csz comps (component_field_arrays ch)"

definition archetype_ok :: "World \<Rightarrow> Archetype \<Rightarrow> bool" where
  "archetype_ok w a \<longleftrightarrow>
     length (chunks a) = unat (number_of_chunks a) \<and>
     chunk_size a = dense_array_chunk_size w \<and>
     length (components a) = unat (arch_number_of_components a) \<and>
     (\<forall>ch \<in> set (chunks a). chunk_ok (all_components_data w) (chunk_size a) (components a) ch)"

text \<open>
  The sparse entry \<open>(a, c, r)\<close> of an entity is consistent with dense storage when row \<open>r\<close> of
  chunk \<open>c\<close> of archetype \<open>a\<close> exists, is below the chunk's length and holds the entity's id.
\<close>

definition sparse_dense_consistent :: "World \<Rightarrow> id_t \<Rightarrow> bool" where
  "sparse_dense_consistent w e =
     (case sparse_index_get w e of
        None \<Rightarrow> False
      | Some (a, c, r) \<Rightarrow>
          (case nth_opt (archetypes w) (unat a) of
             None \<Rightarrow> False
           | Some arch \<Rightarrow>
               (case nth_opt (chunks arch) (unat c) of
                  None \<Rightarrow> False
                | Some ch \<Rightarrow>
                    r < dense_arrays_length ch \<and> nth_opt (id_dense_array ch) (unat r) = Some e)))"

text \<open>Conversely every row below a chunk's length holds a live id whose sparse entry is that row.\<close>

definition rows_indexed :: "World \<Rightarrow> id_t set \<Rightarrow> bool" where
  "rows_indexed w live \<longleftrightarrow>
     (\<forall>a < length (archetypes w). \<forall>c < length (chunks (archetypes w ! a)).
        \<forall>r < unat (dense_arrays_length (chunks (archetypes w ! a) ! c)).
          id_dense_array (chunks (archetypes w ! a) ! c) ! r \<in> live \<and>
          sparse_index_get w (id_dense_array (chunks (archetypes w ! a) ! c) ! r)
            = Some (of_nat a, of_nat c, of_nat r))"

definition wf_world :: "World \<Rightarrow> id_t set \<Rightarrow> bool" where
  "wf_world w live \<longleftrightarrow>
     alloc_inv w live \<and> counters_exact w \<and> registry_ok w \<and>
     (\<forall>a \<in> set (archetypes w). archetype_ok w a) \<and>
     (\<forall>e \<in> live. sparse_dense_consistent w e) \<and>
     rows_indexed w live"

section \<open>Basic facts about the memory primitives\<close>

lemma nth_opt_Some_iff: "nth_opt xs i = Some x \<longleftrightarrow> i < length xs \<and> xs ! i = x"
  by (auto simp: nth_opt_def)

lemma nth_opt_in: "i < length xs \<Longrightarrow> nth_opt xs i = Some (xs ! i)"
  by (simp add: nth_opt_def)

lemma upd_opt_Some_iff: "upd_opt xs i v = Some ys \<longleftrightarrow> i < length xs \<and> ys = xs[i := v]"
  by (auto simp: upd_opt_def)

lemma upd_opt_in: "i < length xs \<Longrightarrow> upd_opt xs i v = Some (xs[i := v])"
  by (simp add: upd_opt_def)

lemma realloc_grow_one: "realloc xs (Suc (length xs)) j = xs @ [j]"
  by (simp add: realloc_def)

lemma realloc_same: "realloc xs (length xs) j = xs"
  by (simp add: realloc_def)

lemma unat_word_succ:
  "unat (w :: 'a::len word) + 1 < 2 ^ LENGTH('a) \<Longrightarrow> unat (w + 1) = unat w + 1"
  by (metis unat_1 unat_add_lem)

section \<open>The 8-bit id counters\<close>

lemma world_add_component_type_Some:
  "world_add_component_type w fs n = Some (w', c) \<longleftrightarrow>
     unat n \<le> length fs \<and> c = number_of_components w \<and>
     w' = w\<lparr>all_components_data :=
               (realloc (all_components_data w) (unat (number_of_components w) + 1)
                  junk_component_data)[unat (number_of_components w) :=
                     \<lparr>number_of_fields = n, field_sizes = take (unat n) fs\<rparr>],
             number_of_components := number_of_components w + 1\<rparr>"
  by (auto simp: world_add_component_type_def component_data_init_def split: if_splits)

lemma register_all_ids:
  "register_all w specs = Some (w', ids) \<Longrightarrow>
     ids = map (\<lambda>i. number_of_components w + of_nat i) [0..<length specs]
     \<and> number_of_components w' = number_of_components w + of_nat (length specs)"
proof (induction specs arbitrary: w w' ids)
  case Nil
  then show ?case by simp
next
  case (Cons spec rest)
  obtain fs n where spec: "spec = (fs, n)" by (cases spec)
  from Cons.prems spec obtain w1 c w2 cs where
    s1: "world_add_component_type w fs n = Some (w1, c)" and
    s2: "register_all w1 rest = Some (w2, cs)" and
    r: "w' = w2" "ids = c # cs"
    by (auto simp: bind_eq_Some_conv)
  from s1 have c: "c = number_of_components w"
    and n1: "number_of_components w1 = number_of_components w + 1"
    by (auto simp: world_add_component_type_Some)
  from Cons.IH[OF s2] have
    cs: "cs = map (\<lambda>i. number_of_components w1 + of_nat i) [0..<length rest]"
    and n2: "number_of_components w2 = number_of_components w1 + of_nat (length rest)"
    by auto
  have "[0..<length (spec # rest)] = 0 # map Suc [0..<length rest]"
    by (simp add: upt_conv_Cons map_Suc_upt del: upt_Suc)
  then show ?case using r c cs n1 n2
    by (simp add: o_def add.assoc del: upt_Suc)
qed

lemma register_all_total:
  "\<forall>(fs, n) \<in> set specs. unat n \<le> length fs \<Longrightarrow> \<exists>r. register_all w specs = Some r"
proof (induction specs arbitrary: w)
  case Nil
  then show ?case by simp
next
  case (Cons spec rest)
  obtain fs n where spec: "spec = (fs, n)" by (cases spec)
  with Cons.prems have "unat n \<le> length fs" by simp
  then obtain w1 c where s1: "world_add_component_type w fs n = Some (w1, c)"
    by (simp add: world_add_component_type_Some)
  from Cons.prems have "\<forall>(fs, n) \<in> set rest. unat n \<le> length fs" by simp
  from Cons.IH[OF this, of w1] obtain r where "register_all w1 rest = Some r" by blast
  with s1 spec show ?case by (cases r) simp
qed

lemma world_add_archetype_counter:
  "world_add_archetype w n cs = Some (w', a) \<Longrightarrow>
     a = number_of_archetypes w \<and> number_of_archetypes w' = number_of_archetypes w + 1"
  by (auto simp: world_add_archetype_def bind_eq_Some_conv)

lemma of_nat_mod_256: "(of_nat (i mod 256) :: 8 word) = of_nat i"
  by (simp add: word_eq_iff_unsigned[where ?'a = nat] unat_of_nat)

text \<open>
  C10. Component ids and archetype ids are 8-bit counters. Starting from a fresh world, the
  registration number \<open>i\<close> (counting from 0) of any list of registrations returns the id
  \<open>i mod 256\<close>, so that registration number 256, the 257th, returns id 0 again, and the
  counter afterwards holds the number of registrations modulo 256. A new archetype likewise
  gets the current value of the 8-bit archetype counter, which is then incremented modulo
  256, and the archetype ids that can be read from the sparse index are at most 256.
\<close>

theorem eight_bit_id_counters:
  "((\<forall>(fs, n) \<in> set specs. unat n \<le> length fs) \<longrightarrow>
      (\<exists>w. register_all (world_create d s k) specs
              = Some (w, map (\<lambda>i. of_nat (i mod 256)) [0..<length specs])
           \<and> unat (number_of_components w) = length specs mod 256))
   \<and> (world_add_archetype w0 n cs = Some (w1, a) \<longrightarrow>
        a = number_of_archetypes w0
        \<and> unat (number_of_archetypes w1) = (unat (number_of_archetypes w0) + 1) mod 256)
   \<and> card {a. \<exists>w e c r. sparse_index_get w e = Some (a, c, r)} \<le> 256"
proof (intro conjI impI)
  assume ok: "\<forall>(fs, n) \<in> set specs. unat n \<le> length fs"
  from register_all_total[OF ok] obtain w ids where
    r: "register_all (world_create d s k) specs = Some (w, ids)" by (metis surj_pair)
  from register_all_ids[OF r] have
    ids: "ids = map (\<lambda>i. number_of_components (world_create d s k) + of_nat i) [0..<length specs]"
    and cnt: "number_of_components w
                = number_of_components (world_create d s k) + of_nat (length specs)"
    by auto
  have z: "number_of_components (world_create d s k) = 0"
    by (simp add: world_create_def)
  have "ids = map (\<lambda>i. of_nat (i mod 256)) [0..<length specs]"
    unfolding ids z by (simp add: of_nat_mod_256)
  moreover have "unat (number_of_components w) = length specs mod 256"
    unfolding cnt z by (simp add: unat_of_nat)
  ultimately show "\<exists>w. register_all (world_create d s k) specs
              = Some (w, map (\<lambda>i. of_nat (i mod 256)) [0..<length specs])
           \<and> unat (number_of_components w) = length specs mod 256"
    using r by blast
next
  assume h: "world_add_archetype w0 n cs = Some (w1, a)"
  from world_add_archetype_counter[OF h]
  show "a = number_of_archetypes w0" by simp
  from world_add_archetype_counter[OF h]
  have "number_of_archetypes w1 = number_of_archetypes w0 + 1" by simp
  then show "unat (number_of_archetypes w1) = (unat (number_of_archetypes w0) + 1) mod 256"
    by (simp add: unat_word_ariths)
next
  have "card {a :: arch_id_t. \<exists>w e c r. sparse_index_get w e = Some (a, c, r)}
          \<le> card (UNIV :: arch_id_t set)"
    by (intro card_mono) auto
  then show "card {a. \<exists>w e c r. sparse_index_get w e = Some (a, c, r)} \<le> 256"
    by (simp add: card_word)
qed

theorem eight_bit_id_counters_witness:
  "(\<exists>w. register_all (world_create 4 4 1) (replicate 257 ([1], 1))
             = Some (w, map (\<lambda>i. of_nat (i mod 256)) [0..<257])
          \<and> unat (number_of_components w) = 1)
   \<and> (of_nat (256 mod 256) :: comp_id_t) = 0
   \<and> (\<exists>w1. world_add_archetype (world_create 4 4 1) 0 [] = Some (w1, 0)
           \<and> unat (number_of_archetypes w1) = 1)"
proof -
  have h: "\<forall>(fs, n) \<in> set (replicate 257 ([1 :: comp_size_t], 1 :: comp_size_t)).
             unat n \<le> length fs"
    by simp
  obtain w1 where
    a: "world_add_archetype (world_create 4 4 1) 0 [] = Some (w1, 0)"
    by (simp add: world_add_archetype_def world_create_def archetype_init_def
          archetype_data_chunk_init_def)
  from h a eight_bit_id_counters[of "replicate 257 ([1], 1)" 4 4 1 "world_create 4 4 1" 0 "[]" w1 0]
  show ?thesis
    by (simp add: world_create_def)
qed

section \<open>Appending to an archetype\<close>

lemma find_chunk_with_space_find:
  "\<forall>i\<in>set is. i < length chs \<Longrightarrow>
     find_chunk_with_space chs sz is = Some (List.find (\<lambda>i. dense_arrays_length (chs ! i) < sz) is)"
  by (induction "is") (auto simp: nth_opt_in)

text \<open>
  C7. Appending to an archetype is first-fit. If chunk \<open>i\<close> is the first chunk (in index
  order) whose length is below \<open>chunk_size\<close>, the entity id is written at \<open>ids[length]\<close> of
  that chunk, its length is incremented, nothing else changes, and the row (the old length) and
  the chunk index \<open>i\<close> are returned. If every chunk is full, a freshly initialised chunk is
  appended, the id is written at its position 0, its length becomes 1, and row 0 with the
  index of the new chunk is returned.
\<close>

theorem archetype_add_entity_first_fit:
  "(i < unat (number_of_chunks a) \<and> unat (number_of_chunks a) \<le> length (chunks a)
      \<and> dense_arrays_length (chunks a ! i) < chunk_size a
      \<and> (\<forall>j<i. \<not> dense_arrays_length (chunks a ! j) < chunk_size a)
      \<and> unat (dense_arrays_length (chunks a ! i)) < length (id_dense_array (chunks a ! i))
    \<longrightarrow> archetype_add_entity a e nall acd =
          Some (a\<lparr>chunks := (chunks a)[i := (chunks a ! i)
                    \<lparr>id_dense_array := (id_dense_array (chunks a ! i))
                        [unat (dense_arrays_length (chunks a ! i)) := e],
                     dense_arrays_length := dense_arrays_length (chunks a ! i) + 1\<rparr>]\<rparr>,
                dense_arrays_length (chunks a ! i), of_nat i))
   \<and> (length (chunks a) = unat (number_of_chunks a)
      \<and> (\<forall>ch\<in>set (chunks a). \<not> dense_arrays_length ch < chunk_size a)
      \<and> unat (number_of_chunks a) + 1 < 2 ^ 32
      \<and> archetype_data_chunk_init acd nall (arch_number_of_components a) (components a)
           (unat (chunk_size a)) = Some new
      \<and> chunk_size a \<noteq> 0
    \<longrightarrow> archetype_add_entity a e nall acd =
          Some (a\<lparr>chunks := chunks a @ [new\<lparr>id_dense_array := (id_dense_array new)[0 := e],
                                            dense_arrays_length := 1\<rparr>],
                  number_of_chunks := number_of_chunks a + 1\<rparr>,
                0, number_of_chunks a))"
proof (intro conjI impI)
  assume h: "i < unat (number_of_chunks a) \<and> unat (number_of_chunks a) \<le> length (chunks a)
      \<and> dense_arrays_length (chunks a ! i) < chunk_size a
      \<and> (\<forall>j<i. \<not> dense_arrays_length (chunks a ! j) < chunk_size a)
      \<and> unat (dense_arrays_length (chunks a ! i)) < length (id_dense_array (chunks a ! i))"
  let ?P = "\<lambda>i. dense_arrays_length (chunks a ! i) < chunk_size a"
  have scan: "find_chunk_with_space (chunks a) (chunk_size a) [0..<unat (number_of_chunks a)]
      = Some (List.find ?P [0..<unat (number_of_chunks a)])"
    using h by (intro find_chunk_with_space_find) auto
  have "List.find ?P [0..<unat (number_of_chunks a)] = Some i"
    using h by (auto simp: find_Some_iff intro!: exI[of _ i])
  with scan h show "archetype_add_entity a e nall acd =
          Some (a\<lparr>chunks := (chunks a)[i := (chunks a ! i)
                    \<lparr>id_dense_array := (id_dense_array (chunks a ! i))
                        [unat (dense_arrays_length (chunks a ! i)) := e],
                     dense_arrays_length := dense_arrays_length (chunks a ! i) + 1\<rparr>]\<rparr>,
                dense_arrays_length (chunks a ! i), of_nat i)"
    by (simp add: archetype_add_entity_def nth_opt_in upd_opt_in)
next
  assume h: "length (chunks a) = unat (number_of_chunks a)
      \<and> (\<forall>ch\<in>set (chunks a). \<not> dense_arrays_length ch < chunk_size a)
      \<and> unat (number_of_chunks a) + 1 < 2 ^ 32
      \<and> archetype_data_chunk_init acd nall (arch_number_of_components a) (components a)
           (unat (chunk_size a)) = Some new
      \<and> chunk_size a \<noteq> 0"
  let ?P = "\<lambda>i. dense_arrays_length (chunks a ! i) < chunk_size a"
  have scan: "find_chunk_with_space (chunks a) (chunk_size a) [0..<unat (number_of_chunks a)]
      = Some (List.find ?P [0..<unat (number_of_chunks a)])"
    using h by (intro find_chunk_with_space_find) auto
  have none: "List.find ?P [0..<unat (number_of_chunks a)] = None"
    using h by (auto simp: find_None_iff)
  have suc: "unat (number_of_chunks a + 1) = Suc (length (chunks a))"
    using h unat_word_succ[of "number_of_chunks a"] by simp
  have new: "id_dense_array new = replicate (unat (chunk_size a)) 0" "dense_arrays_length new = 0"
    using h by (auto simp: archetype_data_chunk_init_def bind_eq_Some_conv split: if_splits)
  have pos: "0 < unat (chunk_size a)"
    using h by (simp add: unat_gt_0)
  show "archetype_add_entity a e nall acd =
          Some (a\<lparr>chunks := chunks a @ [new\<lparr>id_dense_array := (id_dense_array new)[0 := e],
                                            dense_arrays_length := 1\<rparr>],
                  number_of_chunks := number_of_chunks a + 1\<rparr>,
                0, number_of_chunks a)"
  proof -
    have re: "realloc (chunks a) (unat (number_of_chunks a + 1)) junk_chunk
                = chunks a @ [junk_chunk]"
      using suc by (simp add: realloc_grow_one)
    have idx: "unat (number_of_chunks a + 1 - 1) = length (chunks a)"
      using h by simp
    have u1: "upd_opt (chunks a @ [junk_chunk]) (length (chunks a)) new = Some (chunks a @ [new])"
      by (simp add: upd_opt_def)
    have u2: "upd_opt (id_dense_array new) 0 e = Some ((id_dense_array new)[0 := e])"
      using new pos by (simp add: upd_opt_def)
    have ini: "archetype_data_chunk_init acd nall (arch_number_of_components a) (components a)
           (unat (chunk_size a)) = Some new"
      using h by simp
    show ?thesis
      unfolding archetype_add_entity_def scan none re idx ini
      using u1 u2 new by simp
  qed
qed


theorem archetype_add_entity_first_fit_witness:
  "archetype_add_entity
     \<lparr>components = [],
      chunks = [\<lparr>id_dense_array = [7], component_field_arrays = [], dense_arrays_length = 1\<rparr>,
                \<lparr>id_dense_array = [0], component_field_arrays = [], dense_arrays_length = 0\<rparr>,
                \<lparr>id_dense_array = [0], component_field_arrays = [], dense_arrays_length = 0\<rparr>],
      number_of_chunks = 3, chunk_size = 1, arch_number_of_components = 0, archetype_id = 0\<rparr>
     9 0 []
   = Some (\<lparr>components = [],
            chunks = [\<lparr>id_dense_array = [7], component_field_arrays = [], dense_arrays_length = 1\<rparr>,
                      \<lparr>id_dense_array = [9], component_field_arrays = [], dense_arrays_length = 1\<rparr>,
                      \<lparr>id_dense_array = [0], component_field_arrays = [], dense_arrays_length = 0\<rparr>],
            number_of_chunks = 3, chunk_size = 1, arch_number_of_components = 0,
            archetype_id = 0\<rparr>, 0, 1)
   \<and> archetype_add_entity
     \<lparr>components = [],
      chunks = [\<lparr>id_dense_array = [7], component_field_arrays = [], dense_arrays_length = 1\<rparr>],
      number_of_chunks = 1, chunk_size = 1, arch_number_of_components = 0, archetype_id = 0\<rparr>
     9 0 []
   = Some (\<lparr>components = [],
            chunks = [\<lparr>id_dense_array = [7], component_field_arrays = [], dense_arrays_length = 1\<rparr>,
                      \<lparr>id_dense_array = [9], component_field_arrays = [], dense_arrays_length = 1\<rparr>],
            number_of_chunks = 2, chunk_size = 1, arch_number_of_components = 0,
            archetype_id = 0\<rparr>, 0, 1)"
proof -
  let ?full = "\<lparr>id_dense_array = [7], component_field_arrays = [], dense_arrays_length = 1\<rparr>"
  let ?free = "\<lparr>id_dense_array = [0], component_field_arrays = [], dense_arrays_length = 0\<rparr>"
  let ?a = "\<lparr>components = [], chunks = [?full, ?free, ?free], number_of_chunks = 3,
             chunk_size = 1, arch_number_of_components = 0, archetype_id = 0\<rparr>"
  let ?b = "\<lparr>components = [], chunks = [?full], number_of_chunks = 1,
             chunk_size = 1, arch_number_of_components = 0, archetype_id = 0\<rparr>"
  have ini: "archetype_data_chunk_init [] 0 (arch_number_of_components ?b) (components ?b)
               (unat (chunk_size ?b)) = Some ?free"
    by (simp add: archetype_data_chunk_init_def)
  from archetype_add_entity_first_fit[of 1 ?a 9 0 "[]" ?free]
  have one: "archetype_add_entity ?a 9 0 [] =
      Some (?a\<lparr>chunks := [?full, \<lparr>id_dense_array = [9], component_field_arrays = [],
                                   dense_arrays_length = 1\<rparr>, ?free]\<rparr>, 0, 1)"
    by simp
  from ini archetype_add_entity_first_fit[of 0 ?b 9 0 "[]" ?free]
  have two: "archetype_add_entity ?b 9 0 [] =
      Some (?b\<lparr>chunks := [?full, \<lparr>id_dense_array = [9], component_field_arrays = [],
                                   dense_arrays_length = 1\<rparr>], number_of_chunks := 2\<rparr>, 0, 1)"
    by simp
  from one two show ?thesis by simp
qed

section \<open>The id allocator and the sparse index\<close>


lemma unat_of_nat32: "n < 2 ^ 32 \<Longrightarrow> unat (of_nat n :: 32 word) = n"
  by (simp add: unat_of_nat)

lemma unat_lt32: "unat (w :: 32 word) < 2 ^ 32"
  using unsigned_less[of w, where ?'a = nat] by simp

lemma unat_succ_less: "(a :: 32 word) < b \<Longrightarrow> unat (a + 1) = Suc (unat a)"
proof -
  assume "a < b"
  then have "unat a < unat b" by (simp add: word_less_nat_alt)
  moreover have "unat b < 2 ^ 32" by (rule unat_lt32)
  ultimately have "unat a + 1 < 2 ^ LENGTH(32)" by simp
  then show ?thesis using unat_word_succ[of a] by simp
qed

lemma id_stack_pop_frame:
  "id_stack_pop w = Some (w1, e) \<Longrightarrow>
     archetypes w1 = archetypes w \<and> all_components_data w1 = all_components_data w \<and>
     sparse_array_chunks w1 = sparse_array_chunks w \<and>
     sparse_array_chunk_size w1 = sparse_array_chunk_size w \<and>
     sparse_array_number_of_chunks w1 = sparse_array_number_of_chunks w \<and>
     dense_array_chunk_size w1 = dense_array_chunk_size w \<and>
     number_of_archetypes w1 = number_of_archetypes w \<and>
     number_of_components w1 = number_of_components w"
  by (auto simp: id_stack_pop_def Let_def bind_eq_Some_conv split: if_splits)

lemma id_stack_pop_no_grow:
  "id_stack_top_index w < id_stack_capacity w \<Longrightarrow>
   id_stack_pop w = Some (w1, e) \<longleftrightarrow>
     unat (id_stack_top_index w) < length (id_stack_ids w) \<and>
     e = id_stack_ids w ! unat (id_stack_top_index w) \<and>
     w1 = w\<lparr>id_stack_top_index := id_stack_top_index w + 1\<rparr>"
  by (auto simp: id_stack_pop_def Let_def bind_eq_Some_conv nth_opt_Some_iff)

lemma id_stack_pop_grow:
  assumes full: "id_stack_capacity w \<le> id_stack_top_index w"
    and len: "length (id_stack_ids w) = unat (id_stack_capacity w)"
  shows "id_stack_pop w = Some (w1, e) \<longleftrightarrow>
     unat (id_stack_top_index w) < unat (id_stack_capacity w * 2) \<and>
     e = of_nat (unat (id_stack_top_index w)) \<and>
     w1 = w\<lparr>id_stack_capacity := id_stack_capacity w * 2,
            id_stack_ids := take (unat (id_stack_top_index w)) (id_stack_ids w)
               @ replicate (unat (id_stack_top_index w) - unat (id_stack_capacity w)) 0
               @ map of_nat [unat (id_stack_top_index w)..<unat (id_stack_capacity w * 2)],
            id_stack_top_index := id_stack_top_index w + 1\<rparr>"
proof -
  let ?top = "unat (id_stack_top_index w)" and ?cap = "unat (id_stack_capacity w)"
  let ?cap' = "unat (id_stack_capacity w * 2)"
  let ?ids' = "take ?top (realloc (id_stack_ids w) ?cap' 0) @ map of_nat [?top..<?cap']"
  have le: "?cap \<le> ?top" using full by (simp add: word_le_nat_alt)
  have t: "take ?top (realloc (id_stack_ids w) ?cap' 0)
             = take ?top (id_stack_ids w) @ replicate (?top - ?cap) 0" if "?top < ?cap'"
  proof -
    have "?cap \<le> ?cap'" "?top - ?cap \<le> ?cap' - ?cap" using le that by auto
    then show ?thesis by (simp add: realloc_def len min_def)
  qed
  have pre: "length (take ?top (id_stack_ids w) @ replicate (?top - ?cap) (0 :: id_t)) = ?top"
    using le len by simp
  have l: "length ?ids' = ?cap'" if "?top < ?cap'"
    using that pre by (simp add: t)
  have l': "length ?ids' \<le> ?cap'"
    by (simp add: realloc_def len)
  have n: "?ids' ! ?top = of_nat ?top" if "?top < ?cap'"
  proof -
    let ?xs = "take ?top (id_stack_ids w) @ replicate (?top - ?cap) (0 :: id_t)"
    have "(?xs @ map of_nat [?top..<?cap']) ! (length ?xs + 0) = map of_nat [?top..<?cap'] ! 0"
      by (rule nth_append_length_plus)
    then have "(?xs @ map of_nat [?top..<?cap']) ! ?top = map of_nat [?top..<?cap'] ! 0"
      unfolding pre by simp
    also have "\<dots> = of_nat ?top" using that by simp
    finally show ?thesis unfolding t[OF that] by simp
  qed
  show ?thesis
  proof (cases "?top < ?cap'")
    case True
    with full l n t show ?thesis
      by (auto simp: id_stack_pop_def Let_def bind_eq_Some_conv nth_opt_Some_iff)
  next
    case False
    with full l' show ?thesis
      by (auto simp: id_stack_pop_def Let_def bind_eq_Some_conv nth_opt_Some_iff)
  qed
qed


lemma word32_eq_of_nat_iff: "n < 2 ^ 32 \<Longrightarrow> (unat (x :: 32 word) = n) = (x = of_nat n)"
  using unat_of_nat32[of n] by (auto simp: word_eq_iff_unsigned[where ?'a = nat])

lemma ids_below_Suc:
  assumes "H < 2 ^ 32"
  shows "{e :: id_t. unat e < Suc H} = insert (of_nat H) {e. unat e < H}"
  using assms by (auto simp: less_Suc_eq word32_eq_of_nat_iff unat_of_nat32)

lemma stack_inv_pop:
  assumes inv: "stack_inv w L H" and pop: "id_stack_pop w = Some (w1, e)"
  shows "e \<notin> L \<and> (\<exists>H1. stack_inv w1 (insert e L) H1 \<and> unat e < H1 \<and> H \<le> H1 \<and> H1 \<le> Suc H
            \<and> (H1 = Suc H \<longrightarrow> unat e = H))"
proof -
  let ?top = "unat (id_stack_top_index w)" and ?cap = "unat (id_stack_capacity w)"
  let ?ids = "id_stack_ids w"
  from inv have len: "length ?ids = ?cap" and tH: "?top \<le> H" and Hc: "H \<le> ?cap"
    and idn: "\<And>i. H \<le> i \<Longrightarrow> i < ?cap \<Longrightarrow> ?ids ! i = of_nat i"
    and dist: "distinct (free_ids w H)" and disj: "L \<inter> set (free_ids w H) = {}"
    and un: "L \<union> set (free_ids w H) = {e. unat e < H}"
    by (auto simp: stack_inv_def)
  have cap32: "?cap < 2 ^ 32" by (rule unat_lt32)
  show ?thesis
  proof (cases "id_stack_top_index w < id_stack_capacity w")
    case True
    then have tc: "?top < ?cap" by (simp add: word_less_nat_alt)
    from pop True have e: "e = ?ids ! ?top"
      and w1: "w1 = w\<lparr>id_stack_top_index := id_stack_top_index w + 1\<rparr>"
      by (auto simp: id_stack_pop_no_grow)
    have top1: "unat (id_stack_top_index w1) = Suc ?top"
      using True by (simp add: w1 unat_succ_less)
    show ?thesis
    proof (cases "?top < H")
      case True
      have fr: "free_ids w H = e # free_ids w1 H"
      proof -
        have "drop ?top ?ids = ?ids ! ?top # drop (Suc ?top) ?ids"
          using tc len by (simp add: Cons_nth_drop_Suc)
        moreover have "H - ?top = Suc (H - Suc ?top)" using True by simp
        ultimately show ?thesis
          unfolding free_ids_def top1 e by (simp add: w1)
      qed
      have "e \<notin> L" using disj fr by auto
      moreover have "unat e < H" using un fr by auto
      moreover have "stack_inv w1 (insert e L) H"
        unfolding stack_inv_def top1
        using len Hc idn dist disj un fr True by (auto simp: w1)
      ultimately show ?thesis by auto
    next
      case False
      with tH have tHe: "?top = H" by simp
      have fr: "free_ids w H = []" by (simp add: free_ids_def tHe)
      have L: "L = {e. unat e < H}" using un fr by simp
      have H32: "H < 2 ^ 32" using tc tHe cap32 by simp
      have e': "e = of_nat H" using idn[of H] tc tHe e by simp
      have ue: "unat e = H" using H32 by (simp add: e' unat_of_nat32)
      have "e \<notin> L" using L ue by simp
      moreover have "stack_inv w1 (insert e L) (Suc H)"
        unfolding stack_inv_def top1 free_ids_def
        using len tc tHe idn ids_below_Suc[OF H32] L e' by (auto simp: w1)
      ultimately show ?thesis using ue by auto
    qed
  next
    case False
    then have full: "id_stack_capacity w \<le> id_stack_top_index w" by simp
    then have "?cap \<le> ?top" by (simp add: word_le_nat_alt)
    with tH Hc have tHe: "?top = H" and cHe: "?cap = H" by auto
    let ?cap' = "unat (id_stack_capacity w * 2)"
    from pop have lt: "H < ?cap'" and e': "e = of_nat H"
      and w1: "w1 = w\<lparr>id_stack_capacity := id_stack_capacity w * 2,
            id_stack_ids := take H ?ids @ replicate (H - H) 0 @ map of_nat [H..<?cap'],
            id_stack_top_index := id_stack_top_index w + 1\<rparr>"
      using id_stack_pop_grow[OF full len, of w1 e] by (auto simp: tHe cHe)
    have ids1: "id_stack_ids w1 = ?ids @ map of_nat [H..<?cap']"
      using len cHe by (simp add: w1)
    have cap1: "unat (id_stack_capacity w1) = ?cap'" by (simp add: w1)
    have H32: "H < 2 ^ 32" using cap32 cHe by simp
    have top1: "unat (id_stack_top_index w1) = Suc H"
    proof -
      have "?cap' < 2 ^ 32" by (rule unat_lt32)
      then have "?top + 1 < 2 ^ LENGTH(32)" using lt tHe by simp
      then show ?thesis using unat_word_succ[of "id_stack_top_index w"] by (simp add: w1 tHe)
    qed
    have fr: "free_ids w H = []" by (simp add: free_ids_def tHe)
    have L: "L = {e. unat e < H}" using un fr by simp
    have ue: "unat e = H" using H32 by (simp add: e' unat_of_nat32)
    have idn1: "id_stack_ids w1 ! i = of_nat i" if "Suc H \<le> i" "i < ?cap'" for i
    proof -
      have "(?ids @ map of_nat [H..<?cap']) ! i = map of_nat [H..<?cap'] ! (i - H)"
        using that len cHe by (simp add: nth_append)
      then show ?thesis using that by (simp add: ids1)
    qed
    have "e \<notin> L" using L ue by simp
    moreover have "stack_inv w1 (insert e L) (Suc H)"
      unfolding stack_inv_def top1 free_ids_def cap1
      using lt idn1 ids_below_Suc[OF H32] L e' len cHe by (auto simp: ids1)
    ultimately show ?thesis using ue by auto
  qed
qed



lemma sparse_index_set_frame:
  "sparse_index_set w e aid ci row = Some w3 \<Longrightarrow>
     archetypes w3 = archetypes w \<and> all_components_data w3 = all_components_data w \<and>
     id_stack_ids w3 = id_stack_ids w \<and> id_stack_capacity w3 = id_stack_capacity w \<and>
     id_stack_top_index w3 = id_stack_top_index w \<and>
     sparse_array_chunk_size w3 = sparse_array_chunk_size w \<and>
     dense_array_chunk_size w3 = dense_array_chunk_size w \<and>
     number_of_archetypes w3 = number_of_archetypes w \<and>
     number_of_components w3 = number_of_components w"
  by (auto simp: sparse_index_set_def Let_def bind_eq_Some_conv split: if_splits)

lemma sparse_slot_inj:
  assumes "unat (e :: id_t) div n = unat e' div n" "unat e mod n = unat e' mod n"
  shows "e = e'"
proof -
  have "unat e = unat e'" using assms by (metis div_mult_mod_eq)
  then show ?thesis by (simp add: word_eq_iff_unsigned[where ?'a = nat])
qed

lemma sparse_index_get_eq:
  assumes "sparse_array_chunk_size w \<noteq> 0"
    and "unat e div unat (sparse_array_chunk_size w) < length (sparse_array_chunks w)"
    and "sparse_chunk_ok (sparse_array_chunk_size w)
           (sparse_array_chunks w ! (unat e div unat (sparse_array_chunk_size w)))"
  shows "sparse_index_get w e =
     Some (sparse_archetypes (sparse_array_chunks w ! (unat e div unat (sparse_array_chunk_size w)))
              ! (unat e mod unat (sparse_array_chunk_size w)),
           chunk_indexes (sparse_array_chunks w ! (unat e div unat (sparse_array_chunk_size w)))
              ! (unat e mod unat (sparse_array_chunk_size w)),
           dense_id_array_indexes (sparse_array_chunks w ! (unat e div unat (sparse_array_chunk_size w)))
              ! (unat e mod unat (sparse_array_chunk_size w)))"
proof -
  have "0 < unat (sparse_array_chunk_size w)" using assms(1) by (simp add: unat_gt_0)
  then have "unat e mod unat (sparse_array_chunk_size w) < unat (sparse_array_chunk_size w)"
    by simp
  then show ?thesis using assms
    by (simp add: sparse_index_get_def unat_div unat_mod nth_opt_in sparse_chunk_ok_def)
qed

lemma sparse_index_set_ok:
  assumes sp: "sparse_inv w H" and eH: "unat e \<le> H"
    and S: "sparse_array_chunk_size w \<noteq> 0" and bound: "unat e < 2 ^ 32 - 1"
  shows "\<exists>w3. sparse_index_set w e aid ci row = Some w3 \<and>
           sparse_inv w3 (max H (Suc (unat e))) \<and>
           sparse_index_get w3 e = Some (aid, ci, row) \<and>
           (\<forall>e'. e' \<noteq> e \<and> unat e' < sparse_capacity w \<longrightarrow>
                 sparse_index_get w3 e' = sparse_index_get w e') \<and>
           unat (e div sparse_array_chunk_size w3) < length (sparse_array_chunks w3) \<and>
           sparse_capacity w \<le> sparse_capacity w3"
proof -
  let ?S = "unat (sparse_array_chunk_size w)" and ?n = "unat (sparse_array_number_of_chunks w)"
  let ?q = "unat e div ?S" and ?m = "unat e mod ?S"
  let ?chs = "sparse_array_chunks w"
  from sp have HK: "H \<le> ?n * ?S" and len: "length ?chs = ?n"
    and ok: "\<And>sc. sc \<in> set ?chs \<Longrightarrow> sparse_chunk_ok (sparse_array_chunk_size w) sc"
    and z: "sparse_array_chunk_size w = 0 \<longrightarrow> id_stack_capacity w = 0"
    by (auto simp: sparse_inv_def sparse_capacity_def)
  have Spos: "0 < ?S" using S by (simp add: unat_gt_0)
  have m: "?m < ?S" using Spos by simp
  define chs1 where "chs1 = (if ?q < ?n then ?chs else ?chs @ [sparse_array_chunk_init (sparse_array_chunk_size w)])"
  define n1 where "n1 = (if ?q < ?n then sparse_array_number_of_chunks w else sparse_array_number_of_chunks w + 1)"
  define w1 where "w1 = (if ?q < ?n then w else w\<lparr>sparse_array_chunks := chs1, sparse_array_number_of_chunks := n1\<rparr>)"
  have grow: "?q = ?n \<and> unat (sparse_array_number_of_chunks w + 1) = Suc ?n" if "\<not> ?q < ?n"
  proof -
    from that have "?n * ?S \<le> unat e" using Spos
      by (metis div_less_iff_less_mult not_less)
    with eH HK have eq: "unat e = ?n * ?S" by simp
    then have q: "?q = ?n" using Spos by simp
    have "?n \<le> unat e" using eq Spos by (cases ?S) auto
    then have "?n + 1 < 2 ^ LENGTH(32)" using bound by simp
    then show ?thesis using q unat_word_succ[of "sparse_array_number_of_chunks w"] by simp
  qed
  have w1: "(if e div sparse_array_chunk_size w \<ge> sparse_array_number_of_chunks w then
                 w\<lparr>sparse_array_chunks :=
                     take (unat (sparse_array_number_of_chunks w))
                       (realloc (sparse_array_chunks w)
                          (unat (sparse_array_number_of_chunks w + 1)) junk_sparse_chunk)
                     @ replicate (unat (sparse_array_number_of_chunks w + 1)
                                   - unat (sparse_array_number_of_chunks w))
                         (sparse_array_chunk_init (sparse_array_chunk_size w)),
                   sparse_array_number_of_chunks := sparse_array_number_of_chunks w + 1\<rparr>
               else w) = w1"
    using grow len
    by (auto simp: w1_def chs1_def n1_def word_le_nat_alt unat_div realloc_def not_less)
  have chs1: "sparse_array_chunks w1 = chs1" and n1: "sparse_array_number_of_chunks w1 = n1"
    and S1: "sparse_array_chunk_size w1 = sparse_array_chunk_size w"
    by (auto simp: w1_def chs1_def n1_def)
  have len1: "length chs1 = unat n1" using grow len by (auto simp: chs1_def n1_def)
  have q1: "?q < length chs1" using grow len by (auto simp: chs1_def)
  have ok1: "sparse_chunk_ok (sparse_array_chunk_size w) sc" if "sc \<in> set chs1" for sc
    using that ok by (auto simp: chs1_def sparse_chunk_ok_def sparse_array_chunk_init_def split: if_splits)
  have old: "chs1 ! i = ?chs ! i" if "i < ?n" for i
    using that len by (auto simp: chs1_def nth_append)
  define sc where "sc = chs1 ! ?q"
  have sc_ok: "sparse_chunk_ok (sparse_array_chunk_size w) sc"
    using ok1 q1 by (simp add: sc_def)
  define sc' where "sc' = sc\<lparr>sparse_archetypes := (sparse_archetypes sc)[?m := aid],
       chunk_indexes := (chunk_indexes sc)[?m := ci],
       dense_id_array_indexes := (dense_id_array_indexes sc)[?m := row]\<rparr>"
  define w3 where "w3 = w1\<lparr>sparse_array_chunks := chs1[?q := sc']\<rparr>"
  have res: "sparse_index_set w e aid ci row = Some w3"
    unfolding sparse_index_set_def Let_def w1
    using S q1 m sc_ok
    by (simp add: chs1 unat_div unat_mod nth_opt_in upd_opt_in sparse_chunk_ok_def sc_def[symmetric]
          sc'_def w3_def)
  have sc'_ok: "sparse_chunk_ok (sparse_array_chunk_size w) sc'"
    using sc_ok by (simp add: sc'_def sparse_chunk_ok_def)
  have S3: "sparse_array_chunk_size w3 = sparse_array_chunk_size w"
    and chs3: "sparse_array_chunks w3 = chs1[?q := sc']"
    and n3: "sparse_array_number_of_chunks w3 = n1"
    and cap3: "id_stack_capacity w3 = id_stack_capacity w"
    by (auto simp: w3_def w1_def n1_def)
  have ok3: "sparse_chunk_ok (sparse_array_chunk_size w) s" if "s \<in> set (chs1[?q := sc'])" for s
    using that ok1 sc'_ok by (auto dest!: set_update_subset_insert[THEN subsetD])
  have K3: "sparse_capacity w3 = unat n1 * ?S" by (simp add: sparse_capacity_def n3 S3)
  have eK: "unat e < unat n1 * ?S"
  proof -
    have "?q < unat n1" using q1 len1 by simp
    then show ?thesis using Spos by (simp add: div_less_iff_less_mult)
  qed
  have mono: "?n \<le> unat n1" using grow by (auto simp: n1_def)
  have inv3: "sparse_inv w3 (max H (Suc (unat e)))"
    unfolding sparse_inv_def K3 S3 chs3 n3 cap3
    using HK eK mono len1 ok3 z by (auto intro: order_trans[OF HK] mult_le_mono1)
  have get3: "sparse_index_get w3 e = Some (aid, ci, row)"
    using sparse_index_get_eq[of w3 e] S q1 sc'_ok m sc_ok
    by (simp add: S3 chs3 sc'_def sparse_chunk_ok_def)
  have others: "sparse_index_get w3 e' = sparse_index_get w e'"
    if "e' \<noteq> e" "unat e' < sparse_capacity w" for e'
  proof -
    let ?q' = "unat e' div ?S" and ?m' = "unat e' mod ?S"
    have q': "?q' < ?n" using that(2) Spos
      by (simp add: sparse_capacity_def div_less_iff_less_mult)
    have m': "?m' < ?S" using Spos by simp
    have okq: "sparse_chunk_ok (sparse_array_chunk_size w) (?chs ! ?q')"
      using ok q' len by simp
    have g: "sparse_index_get w e' = Some (sparse_archetypes (?chs ! ?q') ! ?m',
          chunk_indexes (?chs ! ?q') ! ?m', dense_id_array_indexes (?chs ! ?q') ! ?m')"
      using sparse_index_get_eq[of w e'] S q' len okq by simp
    have q'1: "?q' < length chs1" using q' mono len1 by simp
    have ok3q: "sparse_chunk_ok (sparse_array_chunk_size w) (chs1[?q := sc'] ! ?q')"
      using ok3 q'1 by simp
    have g3: "sparse_index_get w3 e' = Some (sparse_archetypes (chs1[?q := sc'] ! ?q') ! ?m',
          chunk_indexes (chs1[?q := sc'] ! ?q') ! ?m',
          dense_id_array_indexes (chs1[?q := sc'] ! ?q') ! ?m')"
      using sparse_index_get_eq[of w3 e'] S q'1 ok3q by (simp add: S3 chs3)
    show ?thesis
    proof (cases "?q' = ?q")
      case False
      then have "chs1[?q := sc'] ! ?q' = ?chs ! ?q'" using old q' by simp
      then show ?thesis by (simp add: g g3)
    next
      case True
      then have ne: "?m' \<noteq> ?m" using that(1) sparse_slot_inj[of e' ?S e] by auto
      have "sc = ?chs ! ?q'" using old q' True by (simp add: sc_def)
      then show ?thesis using True q1 ne by (simp add: g g3 sc'_def)
    qed
  qed
  have "unat (e div sparse_array_chunk_size w3) < length (sparse_array_chunks w3)"
    using q1 by (simp add: S3 chs3 unat_div)
  moreover have "sparse_capacity w \<le> sparse_capacity w3"
    unfolding K3 using mono by (simp add: sparse_capacity_def)
  ultimately show ?thesis using res inv3 get3 others by blast
qed



lemma world_add_archetype_frame:
  "world_add_archetype w n cs = Some (w', a) \<Longrightarrow>
     id_stack_ids w' = id_stack_ids w \<and> id_stack_capacity w' = id_stack_capacity w \<and>
     id_stack_top_index w' = id_stack_top_index w \<and>
     all_components_data w' = all_components_data w \<and>
     sparse_array_chunks w' = sparse_array_chunks w \<and>
     sparse_array_chunk_size w' = sparse_array_chunk_size w \<and>
     sparse_array_number_of_chunks w' = sparse_array_number_of_chunks w \<and>
     dense_array_chunk_size w' = dense_array_chunk_size w \<and>
     number_of_components w' = number_of_components w"
  by (auto simp: world_add_archetype_def bind_eq_Some_conv)

lemma place_entity_cases:
  assumes "place_entity w e n cs = Some (w', aid, row, ci)"
  obtains w1 arch arch' where
    "unat n \<le> length cs"
    "(world_match_archetype w n (sort (take (unat n) cs)) = Some (Some aid) \<and> w1 = w) \<or>
     (world_match_archetype w n (sort (take (unat n) cs)) = Some None \<and>
      world_add_archetype w n (sort (take (unat n) cs)) = Some (w1, aid))"
    "nth_opt (archetypes w1) (unat aid) = Some arch"
    "archetype_add_entity arch e (number_of_components w1) (all_components_data w1)
       = Some (arch', row, ci)"
    "w' = w1\<lparr>archetypes := (archetypes w1)[unat aid := arch']\<rparr>"
proof -
  note d = assms[unfolded place_entity_def]
  have n: "unat n \<le> length cs"
    using d by (cases "unat n \<le> length cs") simp_all
  let ?s = "sort (take (unat n) cs)"
  note d1 = d[simplified n if_True bind.simps]
  obtain m where m: "world_match_archetype w n ?s = Some m"
    using d1 by (cases "world_match_archetype w n ?s") simp_all
  note d2 = d1[unfolded m bind.simps]
  obtain w1 a where wa: "(case m of Some a \<Rightarrow> Some (w, a) | None \<Rightarrow> world_add_archetype w n ?s)
                          = Some (w1, a)"
    using d2 by (cases "case m of Some a \<Rightarrow> Some (w, a) | None \<Rightarrow> world_add_archetype w n ?s") auto
  note d3 = d2[unfolded wa bind.simps prod.case]
  obtain arch where ar: "nth_opt (archetypes w1) (unat a) = Some arch"
    using d3 by (cases "nth_opt (archetypes w1) (unat a)") simp_all
  note d4 = d3[unfolded ar bind.simps]
  obtain arch' row' ci' where ad:
    "archetype_add_entity arch e (number_of_components w1) (all_components_data w1)
       = Some (arch', row', ci')"
    using d4 by (cases "archetype_add_entity arch e (number_of_components w1) (all_components_data w1)") auto
  note d5 = d4[unfolded ad bind.simps prod.case]
  from d5 have eqs: "w' = w1\<lparr>archetypes := (archetypes w1)[unat a := arch']\<rparr>" "aid = a"
     "row = row'" "ci = ci'"
    by auto
  have disj: "(world_match_archetype w n ?s = Some (Some aid) \<and> w1 = w) \<or>
     (world_match_archetype w n ?s = Some None \<and> world_add_archetype w n ?s = Some (w1, aid))"
    using m wa eqs by (cases m) auto
  show thesis
    using that[OF n disj] ar ad eqs by simp
qed


lemma place_entity_frame:
  assumes "place_entity w e n cs = Some (w', aid, row, ci)"
  shows "id_stack_ids w' = id_stack_ids w \<and> id_stack_capacity w' = id_stack_capacity w \<and>
     id_stack_top_index w' = id_stack_top_index w \<and>
     all_components_data w' = all_components_data w \<and>
     sparse_array_chunks w' = sparse_array_chunks w \<and>
     sparse_array_chunk_size w' = sparse_array_chunk_size w \<and>
     sparse_array_number_of_chunks w' = sparse_array_number_of_chunks w \<and>
     dense_array_chunk_size w' = dense_array_chunk_size w \<and>
     number_of_components w' = number_of_components w"
  using assms
proof (cases rule: place_entity_cases)
  case (1 w1 arch arch')
  from 1(2) have "id_stack_ids w1 = id_stack_ids w \<and> id_stack_capacity w1 = id_stack_capacity w \<and>
     id_stack_top_index w1 = id_stack_top_index w \<and>
     all_components_data w1 = all_components_data w \<and>
     sparse_array_chunks w1 = sparse_array_chunks w \<and>
     sparse_array_chunk_size w1 = sparse_array_chunk_size w \<and>
     sparse_array_number_of_chunks w1 = sparse_array_number_of_chunks w \<and>
     dense_array_chunk_size w1 = dense_array_chunk_size w \<and>
     number_of_components w1 = number_of_components w"
    using world_add_archetype_frame[of w n "sort (take (unat n) cs)" w1 aid] by auto
  then show ?thesis by (simp add: 1(5))
qed

lemma sparse_index_get_cong:
  "sparse_array_chunks w' = sparse_array_chunks w \<Longrightarrow>
   sparse_array_chunk_size w' = sparse_array_chunk_size w \<Longrightarrow>
   sparse_index_get w' e = sparse_index_get w e"
  by (simp add: sparse_index_get_def)


lemma id_stack_push_Some:
  "id_stack_push w e = Some w1 \<longleftrightarrow>
     unat (id_stack_top_index w - 1) < length (id_stack_ids w) \<and>
     w1 = w\<lparr>id_stack_ids := (id_stack_ids w)[unat (id_stack_top_index w - 1) := e],
            id_stack_top_index := id_stack_top_index w - 1\<rparr>"
  by (auto simp: id_stack_push_def bind_eq_Some_conv upd_opt_Some_iff)

lemma sparse_index_set_row_Some:
  "sparse_index_set_row w m r = Some w2 \<longleftrightarrow>
     unat (m div sparse_array_chunk_size w) < length (sparse_array_chunks w) \<and>
     unat (m mod sparse_array_chunk_size w)
       < length (dense_id_array_indexes
                  (sparse_array_chunks w ! unat (m div sparse_array_chunk_size w))) \<and>
     w2 = w\<lparr>sparse_array_chunks := (sparse_array_chunks w)
             [unat (m div sparse_array_chunk_size w) :=
                (sparse_array_chunks w ! unat (m div sparse_array_chunk_size w))
                \<lparr>dense_id_array_indexes :=
                   (dense_id_array_indexes
                      (sparse_array_chunks w ! unat (m div sparse_array_chunk_size w)))
                   [unat (m mod sparse_array_chunk_size w) := r]\<rparr>]\<rparr>"
  by (auto simp: sparse_index_set_row_def bind_eq_Some_conv upd_opt_Some_iff nth_opt_Some_iff)

lemma swap_pop_last:
  "r = dense_arrays_length ch - 1 \<Longrightarrow>
   swap_pop acd arch ch r = Some (ch\<lparr>dense_arrays_length := dense_arrays_length ch - 1\<rparr>, None)"
  by (simp add: swap_pop_def)

lemma swap_pop_swap:
  "r \<noteq> dense_arrays_length ch - 1 \<Longrightarrow>
   swap_pop acd arch ch r = Some (ch', moved) \<longleftrightarrow>
     (\<exists>cfa. unat (dense_arrays_length ch - 1) < length (id_dense_array ch) \<and>
        unat r < length (id_dense_array ch) \<and>
        copy_components acd (components arch) (component_field_arrays ch) r
          (dense_arrays_length ch - 1) [0..<unat (arch_number_of_components arch)] = Some cfa \<and>
        moved = Some (id_dense_array ch ! unat (dense_arrays_length ch - 1)) \<and>
        ch' = ch\<lparr>id_dense_array :=
                   (id_dense_array ch)[unat r := id_dense_array ch ! unat (dense_arrays_length ch - 1)],
                 component_field_arrays := cfa,
                 dense_arrays_length := dense_arrays_length ch - 1\<rparr>)"
  by (auto simp: swap_pop_def bind_eq_Some_conv upd_opt_Some_iff nth_opt_Some_iff)

lemma world_remove_entity_cases:
  assumes "world_remove_entity w e = Some w'"
  obtains w1 a c r arch ch ch' moved w2 where
    "id_stack_push w e = Some w1"
    "sparse_index_get w e = Some (a, c, r)"
    "nth_opt (archetypes w) (unat a) = Some arch"
    "nth_opt (chunks arch) (unat c) = Some ch"
    "swap_pop (all_components_data w) arch ch r = Some (ch', moved)"
    "(moved = None \<and> w2 = w1) \<or> (\<exists>m. moved = Some m \<and> sparse_index_set_row w1 m r = Some w2)"
    "w' = set_chunk w2 a c ch'"
proof -
  note d = assms[unfolded world_remove_entity_def]
  obtain w1 where p: "id_stack_push w e = Some w1"
    using d by (cases "id_stack_push w e") simp_all
  then have w1: "w1 = w\<lparr>id_stack_ids := (id_stack_ids w)[unat (id_stack_top_index w - 1) := e],
            id_stack_top_index := id_stack_top_index w - 1\<rparr>"
    by (simp add: id_stack_push_Some)
  have g: "sparse_index_get w1 e = sparse_index_get w e"
    by (simp add: sparse_index_get_def w1)
  have fr: "archetypes w1 = archetypes w" "all_components_data w1 = all_components_data w"
    by (simp_all add: w1)
  note d1 = d[unfolded p bind.simps g fr]
  obtain a c r where s: "sparse_index_get w e = Some (a, c, r)"
    using d1 by (cases "sparse_index_get w e") auto
  note d2 = d1[unfolded s bind.simps prod.case]
  obtain arch where ar: "nth_opt (archetypes w) (unat a) = Some arch"
    using d2 by (cases "nth_opt (archetypes w) (unat a)") simp_all
  note d3 = d2[unfolded ar bind.simps]
  obtain ch where ch: "nth_opt (chunks arch) (unat c) = Some ch"
    using d3 by (cases "nth_opt (chunks arch) (unat c)") simp_all
  note d4 = d3[unfolded ch bind.simps]
  obtain ch' moved where sp: "swap_pop (all_components_data w) arch ch r = Some (ch', moved)"
    using d4 by (cases "swap_pop (all_components_data w) arch ch r") auto
  note d5 = d4[unfolded sp bind.simps prod.case]
  obtain w2 where w2: "(case moved of None \<Rightarrow> Some w1
            | Some last_entity_id \<Rightarrow> sparse_index_set_row w1 last_entity_id r) = Some w2"
    using d5 by (cases "case moved of None \<Rightarrow> Some w1
            | Some last_entity_id \<Rightarrow> sparse_index_set_row w1 last_entity_id r") simp_all
  note d6 = d5[unfolded w2 bind.simps]
  have disj: "(moved = None \<and> w2 = w1) \<or> (\<exists>m. moved = Some m \<and> sparse_index_set_row w1 m r = Some w2)"
    using w2 by (cases moved) auto
  from d6 have "w' = set_chunk w2 a c ch'" by simp
  with p s ar ch sp disj show thesis by (rule that)
qed

lemma set_chunk_frame:
  "id_stack_ids (set_chunk w a c ch) = id_stack_ids w"
  "id_stack_capacity (set_chunk w a c ch) = id_stack_capacity w"
  "id_stack_top_index (set_chunk w a c ch) = id_stack_top_index w"
  "all_components_data (set_chunk w a c ch) = all_components_data w"
  "sparse_array_chunks (set_chunk w a c ch) = sparse_array_chunks w"
  "sparse_array_chunk_size (set_chunk w a c ch) = sparse_array_chunk_size w"
  "sparse_array_number_of_chunks (set_chunk w a c ch) = sparse_array_number_of_chunks w"
  "dense_array_chunk_size (set_chunk w a c ch) = dense_array_chunk_size w"
  "number_of_archetypes (set_chunk w a c ch) = number_of_archetypes w"
  "number_of_components (set_chunk w a c ch) = number_of_components w"
  by (simp_all add: set_chunk_def)

lemma world_remove_entity_frame:
  assumes "world_remove_entity w e = Some w'"
  shows "id_stack_ids w' = (id_stack_ids w)[unat (id_stack_top_index w - 1) := e] \<and>
    unat (id_stack_top_index w - 1) < length (id_stack_ids w) \<and>
    id_stack_top_index w' = id_stack_top_index w - 1 \<and>
    id_stack_capacity w' = id_stack_capacity w \<and>
    all_components_data w' = all_components_data w \<and>
    sparse_array_chunk_size w' = sparse_array_chunk_size w \<and>
    sparse_array_number_of_chunks w' = sparse_array_number_of_chunks w \<and>
    dense_array_chunk_size w' = dense_array_chunk_size w \<and>
    number_of_archetypes w' = number_of_archetypes w \<and>
    number_of_components w' = number_of_components w \<and>
    length (sparse_array_chunks w') = length (sparse_array_chunks w) \<and>
    (\<forall>sz. (\<forall>sc\<in>set (sparse_array_chunks w). sparse_chunk_ok sz sc) \<longrightarrow>
          (\<forall>sc\<in>set (sparse_array_chunks w'). sparse_chunk_ok sz sc))"
  using assms
proof (cases rule: world_remove_entity_cases)
  case (1 w1 a c r arch ch ch' moved w2)
  from 1(1) have w1: "w1 = w\<lparr>id_stack_ids := (id_stack_ids w)[unat (id_stack_top_index w - 1) := e],
            id_stack_top_index := id_stack_top_index w - 1\<rparr>"
    and lt: "unat (id_stack_top_index w - 1) < length (id_stack_ids w)"
    by (simp_all add: id_stack_push_Some)
  from 1(6) show ?thesis
  proof
    assume "moved = None \<and> w2 = w1"
    then show ?thesis using lt by (simp add: 1(7) set_chunk_frame w1)
  next
    assume "\<exists>m. moved = Some m \<and> sparse_index_set_row w1 m r = Some w2"
    then obtain m where m: "sparse_index_set_row w1 m r = Some w2" by blast
    let ?q = "unat (m div sparse_array_chunk_size w1)"
    let ?sc = "sparse_array_chunks w1 ! ?q"
    from m have w2: "w2 = w1\<lparr>sparse_array_chunks := (sparse_array_chunks w1)
             [?q := ?sc\<lparr>dense_id_array_indexes :=
                   (dense_id_array_indexes ?sc)[unat (m mod sparse_array_chunk_size w1) := r]\<rparr>]\<rparr>"
      and q: "?q < length (sparse_array_chunks w1)"
      by (simp_all add: sparse_index_set_row_Some)
    have ok: "\<forall>sc\<in>set (sparse_array_chunks w2). sparse_chunk_ok sz sc"
      if "\<forall>sc\<in>set (sparse_array_chunks w). sparse_chunk_ok sz sc" for sz
    proof
      fix sc assume "sc \<in> set (sparse_array_chunks w2)"
      then have "sc \<in> insert (?sc\<lparr>dense_id_array_indexes :=
                   (dense_id_array_indexes ?sc)[unat (m mod sparse_array_chunk_size w1) := r]\<rparr>)
                  (set (sparse_array_chunks w1))"
        unfolding w2 using set_update_subset_insert by fastforce
      moreover have "sparse_chunk_ok sz ?sc" using that q by (simp add: w1)
      ultimately show "sparse_chunk_ok sz sc"
        using that by (auto simp: sparse_chunk_ok_def w1)
    qed
    have rest: "id_stack_ids w2 = id_stack_ids w1" "id_stack_top_index w2 = id_stack_top_index w1"
      "id_stack_capacity w2 = id_stack_capacity w1" "all_components_data w2 = all_components_data w1"
      "sparse_array_chunk_size w2 = sparse_array_chunk_size w1"
      "sparse_array_number_of_chunks w2 = sparse_array_number_of_chunks w1"
      "dense_array_chunk_size w2 = dense_array_chunk_size w1"
      "number_of_archetypes w2 = number_of_archetypes w1"
      "number_of_components w2 = number_of_components w1"
      "length (sparse_array_chunks w2) = length (sparse_array_chunks w1)"
      by (simp_all add: w2)
    show ?thesis
      unfolding 1(7) set_chunk_frame rest using lt ok by (simp add: w1)
  qed
qed



lemma stack_inv_transfer:
  "stack_inv w L H \<Longrightarrow> id_stack_ids w' = id_stack_ids w \<Longrightarrow>
   id_stack_capacity w' = id_stack_capacity w \<Longrightarrow>
   id_stack_top_index w' = id_stack_top_index w \<Longrightarrow> stack_inv w' L H"
  by (simp add: stack_inv_def free_ids_def)

lemma sparse_inv_transfer:
  "sparse_inv w H \<Longrightarrow> sparse_array_chunks w' = sparse_array_chunks w \<Longrightarrow>
   sparse_array_chunk_size w' = sparse_array_chunk_size w \<Longrightarrow>
   sparse_array_number_of_chunks w' = sparse_array_number_of_chunks w \<Longrightarrow>
   id_stack_capacity w' = id_stack_capacity w \<Longrightarrow> sparse_inv w' H"
  by (simp add: sparse_inv_def sparse_capacity_def)

lemma sparse_inv_antimono: "sparse_inv w H \<Longrightarrow> H' \<le> H \<Longrightarrow> sparse_inv w H'"
  by (auto simp: sparse_inv_def)

lemma unat_minus1_32: "unat (- 1 :: 32 word) = 2 ^ 32 - 1"
  by (simp add: unsigned_minus_1_eq_mask mask_eq_exp_minus_1)

lemma world_create_stack_inv: "stack_inv (world_create d s n) {} 0"
  by (simp add: stack_inv_def world_create_def free_ids_def)

lemma world_create_sparse_inv: "sparse_inv (world_create d s n) 0"
  by (simp add: sparse_inv_def world_create_def sparse_chunk_ok_def sparse_array_chunk_init_def)

lemma stack_inv_remove:
  assumes inv: "stack_inv w L H" and live: "e \<in> L"
    and rm: "world_remove_entity w e = Some w'"
  shows "stack_inv w' (L - {e}) H"
proof -
  let ?top = "unat (id_stack_top_index w)" and ?cap = "unat (id_stack_capacity w)"
  let ?ids = "id_stack_ids w"
  let ?t1 = "unat (id_stack_top_index w - 1)"
  from inv have len: "length ?ids = ?cap" and tH: "?top \<le> H" and Hc: "H \<le> ?cap"
    and idn: "\<And>i. H \<le> i \<Longrightarrow> i < ?cap \<Longrightarrow> ?ids ! i = of_nat i"
    and dist: "distinct (free_ids w H)" and disj: "L \<inter> set (free_ids w H) = {}"
    and un: "L \<union> set (free_ids w H) = {e. unat e < H}"
    by (auto simp: stack_inv_def)
  from world_remove_entity_frame[OF rm] have
    ids': "id_stack_ids w' = ?ids[?t1 := e]" and lt: "?t1 < length ?ids"
    and top': "id_stack_top_index w' = id_stack_top_index w - 1"
    and cap': "id_stack_capacity w' = id_stack_capacity w"
    by auto
  have nz: "id_stack_top_index w \<noteq> 0"
  proof
    assume "id_stack_top_index w = 0"
    then have "?t1 = 2 ^ 32 - 1" by (simp add: unat_minus1_32)
    moreover have "?cap < 2 ^ 32" by (rule unat_lt32)
    ultimately show False using lt len by simp
  qed
  then have t1: "?t1 = ?top - 1" and tpos: "0 < ?top"
    by (simp_all add: unat_minus_one unat_gt_0)
  have fr: "free_ids w' H = e # free_ids w H"
  proof -
    have "drop ?t1 (?ids[?t1 := e]) = e # drop (Suc ?t1) (?ids[?t1 := e])"
      using lt by (metis Cons_nth_drop_Suc length_list_update nth_list_update_eq)
    moreover have "drop (Suc ?t1) (?ids[?t1 := e]) = drop ?top ?ids"
      using t1 tpos by simp
    moreover have "H - ?t1 = Suc (H - ?top)" using t1 tpos tH by simp
    ultimately show ?thesis
      unfolding free_ids_def top' ids' by simp
  qed
  have idn': "id_stack_ids w' ! i = of_nat i" if "H \<le> i" "i < ?cap" for i
    using that idn[of i] t1 tpos tH by (simp add: ids')
  have "e \<notin> set (free_ids w H)" using disj live by auto
  then show ?thesis
    unfolding stack_inv_def fr top' cap'
    using len Hc idn' dist disj un t1 tH live by (auto simp: ids')
qed

lemma sparse_inv_remove:
  assumes "sparse_inv w H" and rm: "world_remove_entity w e = Some w'"
  shows "sparse_inv w' H"
  using assms(1) world_remove_entity_frame[OF rm]
  by (simp add: sparse_inv_def sparse_capacity_def)

lemma world_add_entity_cases:
  assumes "world_add_entity w n cs = Some (w', e)"
  obtains w1 w2 aid row ci where
    "id_stack_pop w = Some (w1, e)"
    "place_entity w1 e n cs = Some (w2, aid, row, ci)"
    "sparse_index_set w2 e aid ci row = Some w'"
proof -
  note d = assms[unfolded world_add_entity_def]
  obtain w1 e1 where p: "id_stack_pop w = Some (w1, e1)"
    using d by (cases "id_stack_pop w") auto
  note d1 = d[unfolded p bind.simps prod.case]
  obtain w2 aid row ci where pl: "place_entity w1 e1 n cs = Some (w2, aid, row, ci)"
    using d1 by (cases "place_entity w1 e1 n cs") auto
  note d2 = d1[unfolded pl bind.simps prod.case]
  obtain w3 where s: "sparse_index_set w2 e1 aid ci row = Some w3"
    using d2 by (cases "sparse_index_set w2 e1 aid ci row") auto
  note d3 = d2[unfolded s bind.simps]
  from d3 have "w' = w3" "e = e1" by auto
  with p pl s show thesis using that by simp
qed

text \<open>What the sparse part of \<open>world_add_entity\<close> achieves after a successful pop and placement.\<close>

lemma id_stack_pop_capacity:
  assumes "id_stack_pop w = Some (w1, e)"
  shows "id_stack_capacity w1 = id_stack_capacity w \<or>
         id_stack_capacity w1 = id_stack_capacity w * 2"
proof (cases "id_stack_capacity w \<le> id_stack_top_index w")
  case True
  with assms show ?thesis
    by (simp add: id_stack_pop_def Let_def bind_eq_Some_conv) auto
next
  case False
  with assms show ?thesis
    by (simp add: id_stack_pop_def Let_def bind_eq_Some_conv) auto
qed

lemma add_entity_sparse_phase:
  assumes st: "stack_inv w L H" and sp: "sparse_inv w H"
    and pop: "id_stack_pop w = Some (w1, e)"
    and pl: "place_entity w1 e n cs = Some (w2, aid, row, ci)"
  shows "e \<notin> L \<and> (\<exists>w3 H1. sparse_index_set w2 e aid ci row = Some w3 \<and>
           stack_inv w3 (insert e L) H1 \<and> sparse_inv w3 H1 \<and>
           sparse_index_get w3 e = Some (aid, ci, row) \<and>
           (\<forall>e'. e' \<noteq> e \<and> unat e' < sparse_capacity w \<longrightarrow>
                 sparse_index_get w3 e' = sparse_index_get w e') \<and>
           unat (e div sparse_array_chunk_size w3) < length (sparse_array_chunks w3) \<and>
           sparse_capacity w \<le> sparse_capacity w3)"
proof -
  from stack_inv_pop[OF st pop] have fresh: "e \<notin> L" by (rule conjunct1)
  from stack_inv_pop[OF st pop] obtain H1 where
    h: "stack_inv w1 (insert e L) H1 \<and> unat e < H1 \<and> H \<le> H1 \<and> H1 \<le> Suc H
            \<and> (H1 = Suc H \<longrightarrow> unat e = H)"
    by blast
  from h have st1: "stack_inv w1 (insert e L) H1" and eH1: "unat e < H1"
    and HH1: "H \<le> H1" and H1S: "H1 \<le> Suc H" and H1e: "H1 = Suc H \<longrightarrow> unat e = H"
    by simp_all
  note f1 = id_stack_pop_frame[OF pop]
  note f2 = place_entity_frame[OF pl]
  have chs2: "sparse_array_chunks w2 = sparse_array_chunks w"
    and S2: "sparse_array_chunk_size w2 = sparse_array_chunk_size w"
    and n2: "sparse_array_number_of_chunks w2 = sparse_array_number_of_chunks w"
    and cap2: "id_stack_capacity w2 = id_stack_capacity w1"
    using f1 f2 by simp_all
  have st2: "stack_inv w2 (insert e L) H1"
    by (rule stack_inv_transfer[OF st1]) (simp_all add: f2)
  have K2: "sparse_capacity w2 = sparse_capacity w"
    by (simp add: sparse_capacity_def S2 n2)
  have z2: "sparse_array_chunk_size w2 = 0 \<longrightarrow> id_stack_capacity w2 = 0"
  proof
    assume "sparse_array_chunk_size w2 = 0"
    then have "id_stack_capacity w = 0" using sp by (simp add: sparse_inv_def S2)
    then show "id_stack_capacity w2 = 0"
      using id_stack_pop_capacity[OF pop] by (auto simp: cap2)
  qed
  have sp2: "sparse_inv w2 H"
    unfolding sparse_inv_def K2 chs2 n2
    using sp z2 by (simp add: sparse_inv_def S2)
  have g2: "sparse_index_get w2 e' = sparse_index_get w e'" for e'
    by (simp add: sparse_index_get_def chs2 S2)
  from st1 have H1c: "H1 \<le> unat (id_stack_capacity w1)" by (simp add: stack_inv_def)
  have c32: "unat (id_stack_capacity w1) < 2 ^ 32" by (rule unat_lt32)
  have "unat (id_stack_capacity w2) \<noteq> 0" using eH1 H1c by (simp add: cap2)
  then have capnz: "id_stack_capacity w2 \<noteq> 0" by (simp add: unat_eq_0)
  have S: "sparse_array_chunk_size w2 \<noteq> 0"
    using z2 capnz by blast
  have eH: "unat e \<le> H" using eH1 H1S by simp
  have bound: "unat e < 2 ^ 32 - 1" using eH1 H1c c32 by simp
  from sparse_index_set_ok[OF sp2 eH S bound, of aid ci row] obtain w3 where
    r: "sparse_index_set w2 e aid ci row = Some w3 \<and>
           sparse_inv w3 (max H (Suc (unat e))) \<and>
           sparse_index_get w3 e = Some (aid, ci, row) \<and>
           (\<forall>e'. e' \<noteq> e \<and> unat e' < sparse_capacity w2 \<longrightarrow>
                 sparse_index_get w3 e' = sparse_index_get w2 e') \<and>
           unat (e div sparse_array_chunk_size w3) < length (sparse_array_chunks w3) \<and>
           sparse_capacity w2 \<le> sparse_capacity w3"
    by (elim exE)
  from r have res: "sparse_index_set w2 e aid ci row = Some w3" by (rule conjunct1)
  from r have sp3: "sparse_inv w3 (max H (Suc (unat e)))" by simp
  from r have get: "sparse_index_get w3 e = Some (aid, ci, row)" by simp
  from r have oth: "\<forall>e'. e' \<noteq> e \<and> unat e' < sparse_capacity w \<longrightarrow>
                 sparse_index_get w3 e' = sparse_index_get w e'"
    unfolding K2 g2 by simp
  from r have inb: "unat (e div sparse_array_chunk_size w3) < length (sparse_array_chunks w3)"
    by simp
  from r have mono: "sparse_capacity w \<le> sparse_capacity w3" unfolding K2 by simp
  note f3 = sparse_index_set_frame[OF res]
  have st3: "stack_inv w3 (insert e L) H1"
    by (rule stack_inv_transfer[OF st2]) (simp_all add: f3)
  have "H1 \<le> max H (Suc (unat e))" using H1S H1e HH1 by (cases "H1 = Suc H") auto
  with sp3 have sp3': "sparse_inv w3 H1" by (rule sparse_inv_antimono)
  show ?thesis
    by (intro conjI exI[of _ w3] exI[of _ H1] fresh res st3 sp3' get oth inb mono)
qed

lemma alloc_inv_step:
  assumes inv: "alloc_inv w L" and stp: "step op (w, L) = Some (w', L')"
  shows "alloc_inv w' L'"
proof -
  from inv obtain H where st: "stack_inv w L H" and sp: "sparse_inv w H"
    by (auto simp: alloc_inv_def)
  show ?thesis
  proof (cases op)
    case (AddComponentType fs n)
    with stp obtain c where "world_add_component_type w fs n = Some (w', c)" and L': "L' = L"
      by auto
    then have w': "w' = w\<lparr>all_components_data :=
               (realloc (all_components_data w) (unat (number_of_components w) + 1)
                  junk_component_data)[unat (number_of_components w) :=
                     \<lparr>number_of_fields = n, field_sizes = take (unat n) fs\<rparr>],
             number_of_components := number_of_components w + 1\<rparr>"
      by (simp add: world_add_component_type_Some)
    have "stack_inv w' L H" by (rule stack_inv_transfer[OF st]) (simp_all add: w')
    moreover have "sparse_inv w' H" by (rule sparse_inv_transfer[OF sp]) (simp_all add: w')
    ultimately show ?thesis using L' by (auto simp: alloc_inv_def)
  next
    case (AddEntity n cs)
    with stp obtain e where add: "world_add_entity w n cs = Some (w', e)" and L': "L' = insert e L"
      by auto
    from add obtain w1 w2 aid row ci where
      pop: "id_stack_pop w = Some (w1, e)"
      and pl: "place_entity w1 e n cs = Some (w2, aid, row, ci)"
      and ss: "sparse_index_set w2 e aid ci row = Some w'"
      by (rule world_add_entity_cases)
    from add_entity_sparse_phase[OF st sp pop pl] ss show ?thesis
      by (auto simp: alloc_inv_def L')
  next
    case (RemoveEntity e)
    with stp have live: "e \<in> L" and rm: "world_remove_entity w e = Some w'" and L': "L' = L - {e}"
      by (auto split: if_splits)
    from stack_inv_remove[OF st live rm] sparse_inv_remove[OF sp rm] show ?thesis
      by (auto simp: alloc_inv_def L')
  qed
qed

lemma alloc_inv_run:
  "alloc_inv w L \<Longrightarrow> run ops (w, L) = Some (w', L') \<Longrightarrow> alloc_inv w' L'"
proof (induction ops arbitrary: w L)
  case Nil
  then show ?case by simp
next
  case (Cons op ops)
  from Cons.prems(2) obtain w1 L1 where s: "step op (w, L) = Some (w1, L1)"
    and r: "run ops (w1, L1) = Some (w', L')"
    by (auto simp: bind_eq_Some_conv)
  from alloc_inv_step[OF Cons.prems(1) s] have "alloc_inv w1 L1" .
  from Cons.IH[OF this r] show ?case .
qed

lemma world_create_alloc_inv: "alloc_inv (world_create d s n) {}"
  unfolding alloc_inv_def
  by (intro exI[of _ 0] conjI world_create_stack_inv world_create_sparse_inv)

lemma reachable_alloc_inv:
  "run ops (world_create d s n, {}) = Some (w, L) \<Longrightarrow> alloc_inv w L"
  using alloc_inv_run[OF world_create_alloc_inv] .

end
